theory Spec2Isabelle
  imports Complex_Main "HOL-Library.Sublist"
begin

section \<open>Text, numbers and errors\<close>

text \<open>
  The Python sources under verification are \<^verbatim>\<open>functions.py\<close> and \<^verbatim>\<open>1-data_prep.py\<close>.
  A Python \<^verbatim>\<open>str\<close> is modelled as a \<open>string\<close> whose characters are the code points
  below 256. A cell of a data frame holds either a text or the missing value
  (\<^verbatim>\<open>NaN\<close>/\<^verbatim>\<open>None\<close>, what \<^verbatim>\<open>pd.isna\<close> recognises): it is a \<open>string option\<close>.

  A Python \<^verbatim>\<open>float\<close> is either a number or \<^verbatim>\<open>nan\<close>. Numbers are kept as exact
  rationals: rounding to binary64 and overflow to infinity are not modelled.
\<close>

datatype pyfloat = Num rat | NaN

text \<open>
  The exceptions the parsers can raise: \<^verbatim>\<open>float\<close> on a text that is not a number
  (\<^verbatim>\<open>ValueError\<close>) or on \<^verbatim>\<open>None\<close> (\<^verbatim>\<open>TypeError\<close>), and a string method called on the
  \<^verbatim>\<open>None\<close> of a group that took no part in the match (\<^verbatim>\<open>AttributeError\<close>).
\<close>

datatype error = ValueError | TypeError | AttributeError

text \<open>\<^verbatim>\<open>np.isnan\<close>, and \<^verbatim>\<open>*\<close> on floats: \<^verbatim>\<open>nan\<close> is absorbing.\<close>

fun isnan :: "pyfloat \<Rightarrow> bool" where
  "isnan NaN = True"
| "isnan (Num _) = False"

fun fmul :: "pyfloat \<Rightarrow> pyfloat \<Rightarrow> pyfloat" where
  "fmul (Num a) (Num b) = Num (a * b)"
| "fmul _ _ = NaN"

fun fadd :: "pyfloat \<Rightarrow> pyfloat \<Rightarrow> pyfloat" where
  "fadd (Num a) (Num b) = Num (a + b)"
| "fadd _ _ = NaN"

fun fdiv2 :: "pyfloat \<Rightarrow> pyfloat" where
  "fdiv2 (Num a) = Num (a / 2)"
| "fdiv2 NaN = NaN"

text \<open>
  \<^verbatim>\<open>np.nanmean\<close>: the mean of the entries that are not \<^verbatim>\<open>nan\<close>; \<^verbatim>\<open>nan\<close> (with a
  warning, not an exception) when there is none.
\<close>

fun nums :: "pyfloat list \<Rightarrow> rat list" where
  "nums [] = []"
| "nums (Num a # xs) = a # nums xs"
| "nums (NaN # xs) = nums xs"

definition nanmean :: "pyfloat list \<Rightarrow> pyfloat" where
  "nanmean xs = (if nums xs = [] then NaN
                 else Num (sum_list (nums xs) / of_nat (length (nums xs))))"

subsection \<open>Character classes and string methods\<close>

definition code :: "char \<Rightarrow> nat" where
  "code c = of_char c"

text \<open>\<^verbatim>\<open>\d\<close>: below code point 256 the only decimal digits are \<^verbatim>\<open>0\<close> to \<^verbatim>\<open>9\<close>.\<close>

definition is_digit :: "char \<Rightarrow> bool" where
  "is_digit c = (48 \<le> code c \<and> code c \<le> 57)"

text \<open>
  \<^verbatim>\<open>\s\<close> and the characters removed by \<^verbatim>\<open>str.strip()\<close>: tab, line feed, vertical tab,
  form feed, carriage return, the four separators 28 to 31, space, and next line (133)
  and no-break space (160).
\<close>

definition is_space :: "char \<Rightarrow> bool" where
  "is_space c = ((9 \<le> code c \<and> code c \<le> 13) \<or> (28 \<le> code c \<and> code c \<le> 32)
                 \<or> code c = 133 \<or> code c = 160)"

text \<open>The class \<^verbatim>\<open>[\d,\.]\<close> of the two amount patterns.\<close>

definition is_amount_char :: "char \<Rightarrow> bool" where
  "is_amount_char c = (is_digit c \<or> c = CHR '','' \<or> c = CHR ''.'')"

text \<open>
  \<^verbatim>\<open>str.lower()\<close>: \<^verbatim>\<open>A\<close> to \<^verbatim>\<open>Z\<close>, and the capital letters 192 to 222 of Latin-1 except
  the multiplication sign 215, move up by 32; nothing else below 256 changes.
\<close>

definition is_upper :: "char \<Rightarrow> bool" where
  "is_upper c = ((65 \<le> code c \<and> code c \<le> 90) \<or> (192 \<le> code c \<and> code c \<le> 222 \<and> code c \<noteq> 215))"

definition lower_char :: "char \<Rightarrow> char" where
  "lower_char c = (if is_upper c then char_of (code c + 32) else c)"

definition lower :: "string \<Rightarrow> string" where
  "lower s = map lower_char s"

definition strip :: "string \<Rightarrow> string" where
  "strip s = rev (dropWhile is_space (rev (dropWhile is_space s)))"

text \<open>\<^verbatim>\<open>sub in s\<close> on strings: \<open>sub\<close> occurs in \<open>s\<close> as a contiguous piece.\<close>

fun str_in :: "string \<Rightarrow> string \<Rightarrow> bool" where
  "str_in sub [] = (sub = [])"
| "str_in sub (c # s) = (prefix sub (c # s) \<or> str_in sub s)"

text \<open>\<^verbatim>\<open>str.replace(',', '')\<close>.\<close>

definition remove_commas :: "string \<Rightarrow> string" where
  "remove_commas s = filter (\<lambda>c. c \<noteq> CHR '','') s"

subsection \<open>The conversion \<^verbatim>\<open>float(s)\<close>\<close>

text \<open>
  Every call of \<^verbatim>\<open>float\<close> in the sources receives the text of a capture group of class
  \<^verbatim>\<open>\d\<close> or \<^verbatim>\<open>[\d,\.]\<close> with the commas removed, so a text of digits and dots. On such a
  text \<^verbatim>\<open>float\<close> returns the decimal value when there is at least one digit and at most
  one dot, and raises \<^verbatim>\<open>ValueError\<close> otherwise (\<^verbatim>\<open>''\<close>, \<^verbatim>\<open>'.'\<close>, \<^verbatim>\<open>'1.2.3'\<close>, \<^verbatim>\<open>'75.00.'\<close>).
\<close>

definition digit_val :: "char \<Rightarrow> nat" where
  "digit_val c = code c - 48"

definition nat_of_digits :: "string \<Rightarrow> nat" where
  "nat_of_digits s = foldl (\<lambda>n c. 10 * n + digit_val c) 0 s"

definition py_float :: "string \<Rightarrow> error + pyfloat" where
  "py_float s =
     (let ip = takeWhile is_digit s; r = dropWhile is_digit s in
      if r = [] then
        (if ip = [] then Inl ValueError else Inr (Num (of_nat (nat_of_digits ip))))
      else if hd r = CHR ''.'' \<and> list_all is_digit (tl r) \<and> (ip \<noteq> [] \<or> tl r \<noteq> []) then
        Inr (Num (of_nat (nat_of_digits ip)
                  + of_nat (nat_of_digits (tl r)) / of_nat (10 ^ length (tl r))))
      else Inl ValueError)"

section \<open>Regular expressions\<close>

text \<open>
  The fragment of Python's \<^verbatim>\<open>re\<close> that the sources use: literal text, a greedy \<^verbatim>\<open>+\<close> or
  \<^verbatim>\<open>*\<close> over a character class, a greedy optional \<^verbatim>\<open>?\<close>, sequence, capture groups, and
  \<^verbatim>\<open>$\<close>. The matcher is the backtracking one: \<open>matches r s g\<close> lists every way \<open>r\<close> can
  match at the start of \<open>s\<close>, in the order in which the engine tries them, each with the
  groups captured so far and the text that remains. The engine takes the first.
\<close>

datatype regex =
    Lit string
  | Plus "char \<Rightarrow> bool"
  | Star "char \<Rightarrow> bool"
  | Opt regex
  | Seq regex regex
  | Grp nat regex
  | Eos

type_synonym groups = "nat \<rightharpoonup> string"

text \<open>
  A greedy repetition over a class first takes the whole run of class characters, then
  gives them back one at a time: \<open>rests c s\<close> lists the remaining texts, longest
  match first, ending with \<open>s\<close> itself (nothing taken).
\<close>

fun rests :: "(char \<Rightarrow> bool) \<Rightarrow> string \<Rightarrow> string list" where
  "rests c [] = [[]]"
| "rests c (x # xs) = (if c x then rests c xs @ [x # xs] else [x # xs])"

fun matches :: "regex \<Rightarrow> string \<Rightarrow> groups \<Rightarrow> (groups \<times> string) list" where
  "matches (Lit l) s g = (if prefix l s then [(g, drop (length l) s)] else [])"
| "matches (Plus c) s g = map (Pair g) (butlast (rests c s))"
| "matches (Star c) s g = map (Pair g) (rests c s)"
| "matches (Opt r) s g = matches r s g @ [(g, s)]"
| "matches (Seq a b) s g = concat (map (\<lambda>(g', s'). matches b s' g') (matches a s g))"
| "matches (Grp n r) s g =
     map (\<lambda>(g', s'). (g'(n \<mapsto> take (length s - length s') s), s')) (matches r s g)"
| "matches Eos s g = (if s = [] \<or> s = [CHR 0x0A] then [(g, s)] else [])"

text \<open>\<^verbatim>\<open>re.match\<close>: the first way to match at the start of the text.\<close>

definition re_match :: "regex \<Rightarrow> string \<Rightarrow> groups option" where
  "re_match r s = (case matches r s Map.empty of [] \<Rightarrow> None | (g, _) # _ \<Rightarrow> Some g)"

text \<open>\<^verbatim>\<open>re.search\<close>: the first match at the leftmost position that has one.\<close>

fun re_search :: "regex \<Rightarrow> string \<Rightarrow> groups option" where
  "re_search r [] = re_match r []"
| "re_search r (c # s) =
     (case re_match r (c # s) of Some g \<Rightarrow> Some g | None \<Rightarrow> re_search r s)"

text \<open>
  The groups of the first way to match, if there is one; and the expressions that
  capture nothing.
\<close>

definition first_groups :: "(groups \<times> string) list \<Rightarrow> groups option" where
  "first_groups ms = (case ms of [] \<Rightarrow> None | (g, _) # _ \<Rightarrow> Some g)"

fun no_grp :: "regex \<Rightarrow> bool" where
  "no_grp (Lit l) = True"
| "no_grp (Plus c) = True"
| "no_grp (Star c) = True"
| "no_grp (Opt r) = no_grp r"
| "no_grp (Seq a b) = (no_grp a \<and> no_grp b)"
| "no_grp (Grp n r) = False"
| "no_grp Eos = True"

section \<open>The parsers of \<^verbatim>\<open>functions.py\<close>\<close>

text \<open>\<^verbatim>\<open>\$([\d,\.]+)(?:\s*-\s*\$([\d,\.]+))?\<close>\<close>

definition rate_regex :: regex where
  "rate_regex =
     Seq (Lit ''$'') (Seq (Grp 1 (Plus is_amount_char))
       (Opt (Seq (Star is_space) (Seq (Lit ''-'') (Seq (Star is_space)
          (Seq (Lit ''$'') (Grp 2 (Plus is_amount_char))))))))"

text \<open>
  \<^verbatim>\<open>parse_hourly_rate\<close>. The minimum is converted first, so its \<^verbatim>\<open>ValueError\<close> comes
  first. \<^verbatim>\<open>if match.group(2)\<close> is false when group 2 took no part in the match
  (\<^verbatim>\<open>None\<close>) and when it is the empty text.
\<close>

definition parse_hourly_rate :: "string option \<Rightarrow> error + (pyfloat \<times> pyfloat)" where
  "parse_hourly_rate text =
     (case text of
        None \<Rightarrow> Inr (NaN, NaN)
      | Some t \<Rightarrow>
          (case re_search rate_regex t of
             Some m \<Rightarrow>
               (case m 1 of
                  None \<Rightarrow> Inl AttributeError
                | Some g1 \<Rightarrow>
                    (case py_float (remove_commas g1) of
                       Inl e \<Rightarrow> Inl e
                     | Inr min_rate \<Rightarrow>
                         (case m 2 of
                            Some g2 \<Rightarrow>
                              (if g2 \<noteq> [] then
                                 (case py_float (remove_commas g2) of
                                    Inl e \<Rightarrow> Inl e
                                  | Inr max_rate \<Rightarrow> Inr (min_rate, max_rate))
                               else Inr (min_rate, min_rate))
                          | None \<Rightarrow> Inr (min_rate, min_rate))))
           | None \<Rightarrow> Inr (NaN, NaN)))"

text \<open>\<^verbatim>\<open>(\d+)\+?\s*hrs?/week\<close>\<close>

definition hours_regex :: regex where
  "hours_regex =
     Seq (Grp 1 (Plus is_digit)) (Seq (Opt (Lit ''+'')) (Seq (Star is_space)
       (Seq (Lit ''hr'') (Seq (Opt (Lit ''s'')) (Lit ''/week'')))))"

text \<open>\<^verbatim>\<open>float(match.group(1))\<close>: \<^verbatim>\<open>float(None)\<close> raises \<^verbatim>\<open>TypeError\<close>.\<close>

definition float_group :: "string option \<Rightarrow> error + pyfloat" where
  "float_group g = (case g of None \<Rightarrow> Inl TypeError | Some t \<Rightarrow> py_float t)"

definition parse_hours_per_week :: "string option \<Rightarrow> error + pyfloat" where
  "parse_hours_per_week text =
     (case text of
        None \<Rightarrow> Inr NaN
      | Some t \<Rightarrow>
          (case re_search hours_regex t of
             Some m \<Rightarrow> float_group (m 1)
           | None \<Rightarrow>
               if str_in ''less than'' (lower t) then Inr (Num 25)
               else Inr NaN))"

text \<open>\<^verbatim>\<open>(\d+)\s*to\s*(\d+)\s*months?\<close> and \<^verbatim>\<open>(\d+)\s*months?\<close>\<close>

definition range_regex :: regex where
  "range_regex =
     Seq (Grp 1 (Plus is_digit)) (Seq (Star is_space) (Seq (Lit ''to'') (Seq (Star is_space)
       (Seq (Grp 2 (Plus is_digit)) (Seq (Star is_space)
         (Seq (Lit ''month'') (Opt (Lit ''s''))))))))"

definition months_regex :: regex where
  "months_regex =
     Seq (Grp 1 (Plus is_digit)) (Seq (Star is_space) (Seq (Lit ''month'') (Opt (Lit ''s''))))"

definition parse_duration_weeks :: "string option \<Rightarrow> error + pyfloat" where
  "parse_duration_weeks text =
     (case text of
        None \<Rightarrow> Inr NaN
      | Some t \<Rightarrow>
          (case re_search range_regex t of
             Some m \<Rightarrow>
               (case float_group (m 1) of
                  Inl e \<Rightarrow> Inl e
                | Inr a \<Rightarrow>
                    (case float_group (m 2) of
                       Inl e \<Rightarrow> Inl e
                     | Inr b \<Rightarrow> Inr (fmul (fdiv2 (fadd a b)) (Num 4))))
           | None \<Rightarrow>
               (case re_search months_regex t of
                  Some m \<Rightarrow>
                    (case float_group (m 1) of
                       Inl e \<Rightarrow> Inl e
                     | Inr n \<Rightarrow> Inr (fmul n (Num 4)))
                | None \<Rightarrow>
                    if str_in ''less than 1 month'' (lower t) then Inr (Num 2)
                    else Inr NaN)))"

text \<open>\<^verbatim>\<open>\$([\d,\.]+)\<close>\<close>

definition price_regex :: regex where
  "price_regex = Seq (Lit ''$'') (Grp 1 (Plus is_amount_char))"

definition parse_fixed_price :: "string option \<Rightarrow> error + pyfloat" where
  "parse_fixed_price text =
     (case text of
        None \<Rightarrow> Inr NaN
      | Some t \<Rightarrow>
          (case re_search price_regex t of
             Some m \<Rightarrow>
               (case m 1 of
                  None \<Rightarrow> Inl AttributeError
                | Some g1 \<Rightarrow> py_float (remove_commas g1))
           | None \<Rightarrow> Inr NaN))"

section \<open>Pay type and the estimate\<close>

text \<open>The two columns of a row that the estimate reads.\<close>

record row =
  hourly_or_fixed :: "string option"
  duration_or_budget :: "string option"

text \<open>
  \<^verbatim>\<open>estimate_total_pay\<close>. \<^verbatim>\<open>isinstance(x, str)\<close> holds of a text and not of the missing
  value. The calls are made in the order of the source, so the first exception wins.
\<close>

definition estimate_total_pay :: "row \<Rightarrow> error + pyfloat" where
  "estimate_total_pay r =
     (case hourly_or_fixed r of
        None \<Rightarrow> Inr NaN
      | Some t \<Rightarrow>
          if str_in ''hourly'' (lower t) then
            (case parse_hourly_rate (Some t) of
               Inl e \<Rightarrow> Inl e
             | Inr (min_rate, max_rate) \<Rightarrow>
                 (let avg_rate = nanmean [min_rate, max_rate] in
                  case parse_hours_per_week (duration_or_budget r) of
                    Inl e \<Rightarrow> Inl e
                  | Inr hours_per_week \<Rightarrow>
                      (case parse_duration_weeks (duration_or_budget r) of
                         Inl e \<Rightarrow> Inl e
                       | Inr weeks \<Rightarrow>
                           (let hours_per_week' = (if isnan hours_per_week then Num 30
                                                   else hours_per_week);
                                weeks' = (if isnan weeks then Num 8 else weeks)
                            in Inr (fmul (fmul avg_rate hours_per_week') weeks')))))
          else if str_in ''fixed'' (lower t) then parse_fixed_price (duration_or_budget r)
          else Inr NaN)"

text \<open>\<^verbatim>\<open>get_pay_type\<close> returns the text \<^verbatim>\<open>'Hourly'\<close> or \<^verbatim>\<open>'Fixed'\<close>, or the missing value.\<close>

definition get_pay_type :: "string option \<Rightarrow> string option" where
  "get_pay_type text =
     (case text of
        None \<Rightarrow> None
      | Some t \<Rightarrow>
          if str_in ''hourly'' (lower t) then Some ''Hourly''
          else if str_in ''fixed'' (lower t) then Some ''Fixed''
          else None)"

section \<open>Search terms\<close>

text \<open>
  \<^verbatim>\<open>Series.ffill()\<close>: a scan over the column with the last value seen; a missing cell
  takes it, and stays missing when nothing was seen yet.
\<close>

fun ffill_from :: "'a option \<Rightarrow> 'a option list \<Rightarrow> 'a option list" where
  "ffill_from last_seen [] = []"
| "ffill_from last_seen (None # xs) = last_seen # ffill_from last_seen xs"
| "ffill_from last_seen (Some v # xs) = Some v # ffill_from (Some v) xs"

definition ffill :: "'a option list \<Rightarrow> 'a option list" where
  "ffill xs = ffill_from None xs"

text \<open>\<^verbatim>\<open>Series.str.lower()\<close> keeps a missing cell missing.\<close>

definition str_lower :: "string option list \<Rightarrow> string option list" where
  "str_lower xs = map (map_option lower) xs"

definition search_term_map :: "(string \<times> string) list" where
  "search_term_map =
     [(''ai'', ''AI''),
      (''artificial'', ''AI''),
      (''intelligent'', ''AI''),
      (''machine'', ''ML''),
      (''learning'', ''ML''),
      (''statistics'', ''statistics''),
      (''engineer'', ''data engineering''),
      (''data'', ''data engineering''),
      (''python'', ''data engineering'')]"

text \<open>
  \<^verbatim>\<open>Series.map(dict)\<close>: a cell whose value is not a key of the dictionary, and a missing
  cell, become missing.
\<close>

definition series_map :: "(string \<times> string) list \<Rightarrow> string option list \<Rightarrow> string option list" where
  "series_map d xs = map (\<lambda>v. case v of None \<Rightarrow> None | Some k \<Rightarrow> map_of d k) xs"

text \<open>\<^verbatim>\<open>standardize_search_term_column\<close>, on the column \<^verbatim>\<open>search_term\<close> it rewrites.\<close>

definition standardize_search_term_column :: "string option list \<Rightarrow> string option list" where
  "standardize_search_term_column col = series_map search_term_map (str_lower (ffill col))"

section \<open>Skills\<close>

text \<open>
  \<^verbatim>\<open>str.title()\<close>: a cased character is put in lower case after a cased character and in
  title case otherwise. Three letters below 256 have their capital above 255
  (181, 223 and 255); the model leaves them as they are.
\<close>

definition is_cased :: "char \<Rightarrow> bool" where
  "is_cased c = ((65 \<le> code c \<and> code c \<le> 90) \<or> (97 \<le> code c \<and> code c \<le> 122)
                 \<or> code c = 170 \<or> code c = 181 \<or> code c = 186
                 \<or> (192 \<le> code c \<and> code c \<noteq> 215 \<and> code c \<noteq> 247))"

definition title_char :: "char \<Rightarrow> char" where
  "title_char c =
     (if (97 \<le> code c \<and> code c \<le> 122) \<or> (224 \<le> code c \<and> code c \<le> 254 \<and> code c \<noteq> 247)
      then char_of (code c - 32) else c)"

fun title_from :: "bool \<Rightarrow> string \<Rightarrow> string" where
  "title_from previous_is_cased [] = []"
| "title_from previous_is_cased (c # s) =
     (if previous_is_cased then lower_char c else title_char c) # title_from (is_cased c) s"

definition title :: "string \<Rightarrow> string" where
  "title s = title_from False s"

text \<open>
  \<^verbatim>\<open>^\+\d+$\<close>, used with \<^verbatim>\<open>re.match\<close>, which anchors the match at the start of the text
  itself.
\<close>

definition marker_regex :: regex where
  "marker_regex = Seq (Lit ''+'') (Seq (Plus is_digit) Eos)"

definition non_skills :: "string list" where
  "non_skills =
     [''female'', ''budget'', ''company'', ''project'', ''article'', ''review'',
      ''advertisement'', ''advertising'', ''media'', ''english'', ''accuracy verification'',
      ''casual tone'', ''presentation'', ''resume'', ''error detection'',
      ''draft documentation'', ''product knowledge'', ''client management'',
      ''communication skills'', ''critical thinking skills'', ''personal computer'',
      ''smartphone'', ''phone communication'', ''accounts payable'', ''accounts receivable'',
      ''customer experience'', ''heap'', ''review'', ''scientist'', ''engineer'',
      ''engineering'', ''learn'', ''learning'']"

definition canonical_map :: "(string \<times> string) list" where
  "canonical_map =
     [(''ai'', ''Artificial Intelligence''),
      (''artificial'', ''Artificial Intelligence''),
      (''artificial intelligence'', ''Artificial Intelligence''),
      (''machine'', ''Machine Learning''),
      (''machine learning'', ''Machine Learning''),
      (''ml'', ''Machine Learning''),
      (''python'', ''Python''),
      (''data'', ''Data Science''),
      (''data science'', ''Data Science''),
      (''statistics'', ''Statistics''),
      (''statistical'', ''Statistics''),
      (''statistic'', ''Statistics''),
      (''deep learning'', ''Deep Learning''),
      (''nlp'', ''Natural Language Processing''),
      (''natural language processing'', ''Natural Language Processing'')]"

text \<open>\<^verbatim>\<open>clean_and_standardize_skill\<close>: \<^verbatim>\<open>None\<close> is a dropped skill.\<close>

definition clean_and_standardize_skill :: "string option \<Rightarrow> string option" where
  "clean_and_standardize_skill skill =
     (case skill of
        None \<Rightarrow> None
      | Some t \<Rightarrow>
          if strip t = [] then None
          else if re_match marker_regex (strip t) \<noteq> None then None
          else (let skill_lower = lower (strip t) in
                if skill_lower \<in> set non_skills then None
                else (case map_of canonical_map skill_lower of
                        Some canonical \<Rightarrow> Some canonical
                      | None \<Rightarrow> Some (title (strip t)))))"

section \<open>The preparation script\<close>

text \<open>
  Lines 37 to 47 of \<^verbatim>\<open>1-data_prep.py\<close>: six columns are computed from the two text
  columns of every row, then the rows whose estimate is \<^verbatim>\<open>nan\<close> are dropped. An
  exception raised for any row ends the script. The model computes the new columns row
  by row, in the order of the assignments.
\<close>

record prepared =
  pay_type :: "string option"
  hourly_rate_min :: pyfloat
  hourly_rate_max :: pyfloat
  est_hours_per_week :: pyfloat
  est_duration_weeks :: pyfloat
  fixed_price :: pyfloat
  estimated_total_pay :: pyfloat

definition add_columns :: "row \<Rightarrow> error + prepared" where
  "add_columns r =
     (case parse_hourly_rate (hourly_or_fixed r) of
        Inl e \<Rightarrow> Inl e
      | Inr (rate_min, rate_max) \<Rightarrow>
     (case parse_hours_per_week (duration_or_budget r) of
        Inl e \<Rightarrow> Inl e
      | Inr hours \<Rightarrow>
     (case parse_duration_weeks (duration_or_budget r) of
        Inl e \<Rightarrow> Inl e
      | Inr weeks \<Rightarrow>
     (case parse_fixed_price (duration_or_budget r) of
        Inl e \<Rightarrow> Inl e
      | Inr price \<Rightarrow>
     (case estimate_total_pay r of
        Inl e \<Rightarrow> Inl e
      | Inr estimate \<Rightarrow>
          Inr \<lparr>pay_type = get_pay_type (hourly_or_fixed r),
               hourly_rate_min = rate_min, hourly_rate_max = rate_max,
               est_hours_per_week = hours, est_duration_weeks = weeks,
               fixed_price = price, estimated_total_pay = estimate\<rparr>)))))"

fun apply_rows :: "('a \<Rightarrow> error + 'b) \<Rightarrow> 'a list \<Rightarrow> error + 'b list" where
  "apply_rows f [] = Inr []"
| "apply_rows f (x # xs) =
     (case f x of
        Inl e \<Rightarrow> Inl e
      | Inr y \<Rightarrow> (case apply_rows f xs of Inl e \<Rightarrow> Inl e | Inr ys \<Rightarrow> Inr (y # ys)))"

definition prepare :: "row list \<Rightarrow> error + prepared list" where
  "prepare df =
     (case apply_rows add_columns df of
        Inl e \<Rightarrow> Inl e
      | Inr rows \<Rightarrow> Inr (filter (\<lambda>p. \<not> isnan (estimated_total_pay p)) rows))"

section \<open>The specification's words\<close>

text \<open>
  A case-insensitive substring check, as the specification words it, written without
  any conversion of the text. Two characters are the same letter when they are equal,
  or when they are the capital and the small form of one of the letters \<^verbatim>\<open>A\<close> to \<^verbatim>\<open>Z\<close>,
  which lie 32 code points apart. A word is spelled at the start of a text when its
  characters are, one by one, the same letters as the first characters of the text; the
  text contains the word when the word is spelled at the start of one of its suffixes.
\<close>

definition spec_ascii_letter :: "char \<Rightarrow> bool" where
  "spec_ascii_letter c = ((65 \<le> code c \<and> code c \<le> 90) \<or> (97 \<le> code c \<and> code c \<le> 122))"

definition spec_same_letter :: "char \<Rightarrow> char \<Rightarrow> bool" where
  "spec_same_letter a b =
     (a = b \<or> (spec_ascii_letter a \<and> spec_ascii_letter b \<and>
               (code a = code b + 32 \<or> code b = code a + 32)))"

fun spec_spelled :: "string \<Rightarrow> string \<Rightarrow> bool" where
  "spec_spelled [] s = True"
| "spec_spelled (w # ws) [] = False"
| "spec_spelled (w # ws) (c # s) = (spec_same_letter w c \<and> spec_spelled ws s)"

fun spec_contains_ci :: "string \<Rightarrow> string \<Rightarrow> bool" where
  "spec_contains_ci word [] = spec_spelled word []"
| "spec_contains_ci word (c # s) = (spec_spelled word (c # s) \<or> spec_contains_ci word s)"

text \<open>
  The pay type of the specification: \<^verbatim>\<open>hourly\<close> is looked for first, then \<^verbatim>\<open>fixed\<close>;
  a text with neither, and a missing text, have none (\<^verbatim>\<open>Unknown\<close>, the missing value).
\<close>

definition spec_get_pay_type :: "string option \<Rightarrow> string option" where
  "spec_get_pay_type text =
     (case text of
        None \<Rightarrow> None
      | Some t \<Rightarrow>
          if spec_contains_ci ''hourly'' t then Some ''Hourly''
          else if spec_contains_ci ''fixed'' t then Some ''Fixed''
          else None)"

text \<open>
  The hourly rate of the specification. A currency amount is a dollar sign followed by
  a longest non-empty run of digits, commas and full stops; the first one in the text
  is located. A second amount follows it when, after optional blanks, a dash, and
  optional blanks, there is another currency amount. The value of an amount is read
  after its thousands separators are removed.
\<close>

fun spec_find_amount :: "string \<Rightarrow> (string \<times> string) option" where
  "spec_find_amount [] = None"
| "spec_find_amount (c # s) =
     (if c = CHR ''$'' \<and> takeWhile is_amount_char s \<noteq> []
      then Some (takeWhile is_amount_char s, dropWhile is_amount_char s)
      else spec_find_amount s)"

definition spec_second_amount :: "string \<Rightarrow> string option" where
  "spec_second_amount rest =
     (case dropWhile is_space rest of
        [] \<Rightarrow> None
      | c # r \<Rightarrow>
          if c = CHR ''-'' then
            (case dropWhile is_space r of
               [] \<Rightarrow> None
             | d # r' \<Rightarrow>
                 if d = CHR ''$'' \<and> takeWhile is_amount_char r' \<noteq> []
                 then Some (takeWhile is_amount_char r') else None)
          else None)"




text \<open>
  The hourly estimate of the specification: the mean of the rates that are present
  (absent when neither is), times the hours per week, 30 when absent, times the weeks,
  8 when absent; absent when the mean is.
\<close>

fun spec_avg_rate :: "pyfloat \<Rightarrow> pyfloat \<Rightarrow> pyfloat" where
  "spec_avg_rate (Num a) (Num b) = Num ((a + b) / 2)"
| "spec_avg_rate (Num a) NaN = Num a"
| "spec_avg_rate NaN (Num b) = Num b"
| "spec_avg_rate NaN NaN = NaN"

fun spec_or_fallback :: "rat \<Rightarrow> pyfloat \<Rightarrow> rat" where
  "spec_or_fallback d NaN = d"
| "spec_or_fallback d (Num x) = x"

definition spec_hourly_estimate :: "pyfloat \<Rightarrow> pyfloat \<Rightarrow> pyfloat \<Rightarrow> pyfloat \<Rightarrow> pyfloat" where
  "spec_hourly_estimate min_rate max_rate hours weeks =
     (case spec_avg_rate min_rate max_rate of
        NaN \<Rightarrow> NaN
      | Num avg \<Rightarrow> Num (avg * spec_or_fallback 30 hours * spec_or_fallback 8 weeks))"

text \<open>
  A row keeps its two kinds of pay apart when the text that is not read for its kind of
  pay holds no currency amount: the duration text of a row whose pay-type text contains
  \<^verbatim>\<open>hourly\<close>, and the pay-type text of a row whose pay-type text contains \<^verbatim>\<open>fixed\<close> and not
  \<^verbatim>\<open>hourly\<close>. Nothing is asked of the other rows.
\<close>

definition spec_unmixed :: "row \<Rightarrow> bool" where
  "spec_unmixed r =
     (case hourly_or_fixed r of
        None \<Rightarrow> True
      | Some t \<Rightarrow>
          if spec_contains_ci ''hourly'' t then
            (case duration_or_budget r of
               None \<Rightarrow> True
             | Some d \<Rightarrow> spec_find_amount d = None)
          else if spec_contains_ci ''fixed'' t then spec_find_amount t = None
          else True)"

text \<open>
  The estimate of the specification, given the hours per week and the weeks read from
  the duration text: for a pay-type text that contains \<^verbatim>\<open>hourly\<close>, the hourly estimate of
  the two parsed rates; else, for one that contains \<^verbatim>\<open>fixed\<close>, the parsed fixed price;
  else, and with no text, absent.
\<close>

definition spec_estimate_total_pay :: "row \<Rightarrow> pyfloat \<Rightarrow> pyfloat \<Rightarrow> error + pyfloat" where
  "spec_estimate_total_pay r hours weeks =
     (case hourly_or_fixed r of
        None \<Rightarrow> Inr NaN
      | Some t \<Rightarrow>
          if spec_contains_ci ''hourly'' t then
            (case parse_hourly_rate (Some t) of
               Inl e \<Rightarrow> Inl e
             | Inr (min_rate, max_rate) \<Rightarrow>
                 Inr (spec_hourly_estimate min_rate max_rate hours weeks))
          else if spec_contains_ci ''fixed'' t then parse_fixed_price (duration_or_budget r)
          else Inr NaN)"

section \<open>Properties\<close>

subsection \<open>Skills\<close>

text \<open>
  Claim C8. For every entry of the synonym table \<open>canonical_map\<close>, the skill
  canonicalizer sends the entry's key to the entry's canonical form, and it sends that
  canonical form to itself: its output on the table is a fixed point.
\<close>

theorem skill_canonical_fixed_point:
  "\<forall>(k, v) \<in> set canonical_map.
     clean_and_standardize_skill (Some k) = Some v \<and>
     clean_and_standardize_skill (Some v) = Some v"
  by code_simp

theorem skill_canonical_fixed_point_witness:
  "(''ml'', ''Machine Learning'') \<in> set canonical_map \<and>
   clean_and_standardize_skill (Some ''ml'') = Some ''Machine Learning'' \<and>
   clean_and_standardize_skill (Some ''Machine Learning'') = Some ''Machine Learning''"
proof -
  have mem: "(''ml'', ''Machine Learning'') \<in> set canonical_map"
    by (simp add: canonical_map_def)
  with skill_canonical_fixed_point show ?thesis
    by fastforce
qed

subsection \<open>Pay type\<close>

lemma code_lower_char:
  "code (lower_char c) = (if is_upper c then code c + 32 else code c)"
  by (auto simp: lower_char_def is_upper_def code_def)

lemma code_eq_iff: "code a = code b \<longleftrightarrow> a = b"
  by (simp add: code_def)

lemma lower_char_small:
  assumes "97 \<le> code w" "code w \<le> 122"
  shows "lower_char c = w \<longleftrightarrow> spec_same_letter w c"
proof -
  have "lower_char c = w \<longleftrightarrow> code (lower_char c) = code w"
    by (simp add: code_eq_iff)
  also have "\<dots> \<longleftrightarrow> (code c = code w \<or> code c + 32 = code w)"
    using assms by (auto simp: code_lower_char is_upper_def)
  also have "\<dots> \<longleftrightarrow> spec_same_letter w c"
    using assms by (auto simp: spec_same_letter_def spec_ascii_letter_def code_eq_iff)
  finally show ?thesis .
qed

lemma prefix_lower_spelled:
  "\<forall>w\<in>set word. 97 \<le> code w \<and> code w \<le> 122 \<Longrightarrow>
   prefix word (lower s) \<longleftrightarrow> spec_spelled word s"
proof (induction word s rule: spec_spelled.induct)
  case (1 s)
  then show ?case by simp
next
  case (2 w ws)
  then show ?case by (simp add: lower_def)
next
  case (3 w ws c s)
  from 3 have "prefix ws (lower s) \<longleftrightarrow> spec_spelled ws s" by simp
  moreover from 3(2) have "lower_char c = w \<longleftrightarrow> spec_same_letter w c"
    by (simp add: lower_char_small)
  ultimately show ?case by (auto simp: lower_def)
qed

lemma str_in_lower_ci:
  assumes "\<forall>w\<in>set word. 97 \<le> code w \<and> code w \<le> 122"
  shows "str_in word (lower t) \<longleftrightarrow> spec_contains_ci word t"
proof (induction t)
  case Nil
  show ?case by (cases word) (simp_all add: lower_def)
next
  case (Cons c t)
  have "lower (c # t) = lower_char c # lower t" by (simp add: lower_def)
  then have "str_in word (lower (c # t)) \<longleftrightarrow>
      prefix word (lower (c # t)) \<or> str_in word (lower t)" by simp
  with Cons prefix_lower_spelled [OF assms, of "c # t"] show ?case by simp
qed

lemma hourly_in_iff: "str_in ''hourly'' (lower t) \<longleftrightarrow> spec_contains_ci ''hourly'' t"
  by (rule str_in_lower_ci) (simp add: code_def)

lemma fixed_in_iff: "str_in ''fixed'' (lower t) \<longleftrightarrow> spec_contains_ci ''fixed'' t"
  by (rule str_in_lower_ci) (simp add: code_def)

text \<open>
  Claim C9. For every input, \<open>get_pay_type\<close> is the pay type of the specification: a
  case-insensitive substring check for \<^verbatim>\<open>hourly\<close>, then for \<^verbatim>\<open>fixed\<close>, the first match
  winning; a text with neither, and a missing input, give the missing value (Unknown).
  The check of the specification compares letters and converts nothing, so the equality
  says that lowering the text, as the code does, makes the search blind to case.
\<close>

theorem get_pay_type_spec: "get_pay_type text = spec_get_pay_type text"
  by (simp add: get_pay_type_def spec_get_pay_type_def hourly_in_iff fixed_in_iff
      split: option.splits)

text \<open>
  On texts in mixed case: capitals in the word, the whole word in capitals, both words
  present, \<^verbatim>\<open>fixed\<close> alone, neither word, and no text.
\<close>

theorem get_pay_type_spec_witness:
  "get_pay_type (Some ''Hourly: $75.00 - $100.00'') = Some ''Hourly'' \<and>
   get_pay_type (Some ''paid HOURLY'') = Some ''Hourly'' \<and>
   get_pay_type (Some ''Fixed or hOuRlY'') = Some ''Hourly'' \<and>
   get_pay_type (Some ''FiXeD-price'') = Some ''Fixed'' \<and>
   get_pay_type (Some ''Hour1y, F1xed'') = None \<and>
   get_pay_type None = None"
  unfolding get_pay_type_spec by code_simp

subsection \<open>The shape of a parsed rate\<close>

lemma py_float_Num: "py_float s = Inr x \<Longrightarrow> \<exists>q. x = Num q"
  by (auto simp: py_float_def Let_def split: if_splits)

lemma parse_hourly_rate_cases:
  "(\<exists>e. parse_hourly_rate text = Inl e) \<or> parse_hourly_rate text = Inr (NaN, NaN) \<or>
   (\<exists>a b. parse_hourly_rate text = Inr (Num a, Num b))"
  by (auto simp: parse_hourly_rate_def split: option.splits sum.splits
      dest!: py_float_Num)

text \<open>
  Claim C10. For every input, a pair returned by \<open>parse_hourly_rate\<close> has both
  components present or both absent: never exactly one of them is \<^verbatim>\<open>nan\<close>.
\<close>

theorem parse_hourly_rate_both_or_neither:
  "parse_hourly_rate text = Inr (a, b) \<Longrightarrow> (isnan a \<longleftrightarrow> isnan b)"
  using parse_hourly_rate_cases [of "text"] by auto

theorem parse_hourly_rate_both_or_neither_witness:
  "parse_hourly_rate (Some ''Hourly: $75.00'') = Inr (Num 75, Num 75) \<and>
   (isnan (Num 75) \<longleftrightarrow> isnan (Num 75)) \<and>
   parse_hourly_rate (Some ''Hourly'') = Inr (NaN, NaN) \<and> (isnan NaN \<longleftrightarrow> isnan NaN)"
proof -
  have a: "parse_hourly_rate (Some ''Hourly: $75.00'') = Inr (Num 75, Num 75)"
    by code_simp
  have b: "parse_hourly_rate (Some ''Hourly'') = Inr (NaN, NaN)"
    by code_simp
  show ?thesis
    using a b parse_hourly_rate_both_or_neither [OF a]
      parse_hourly_rate_both_or_neither [OF b]
    by simp
qed

subsection \<open>Where the parsers leave their documentation\<close>

text \<open>
  Claim C2. The claim has \<^verbatim>\<open>parse_hours_per_week("Less than 30 hrs/week")\<close> return 25,
  as the docstring of the function does (25 if the text contains \<^verbatim>\<open>less than\<close>). The
  numeric pattern is tried first and matches \<^verbatim>\<open>30 hrs/week\<close>, so the function returns 30;
  the other two examples of the claim hold.
\<close>

theorem parse_hours_per_week_less_than_30:
  "parse_hours_per_week (Some ''Less than 30 hrs/week'') = Inr (Num 30) \<and>
   parse_hours_per_week (Some ''30+ hrs/week'') = Inr (Num 30) \<and>
   parse_hours_per_week (Some ''unspecified'') = Inr NaN"
  by code_simp

text \<open>
  Claim C3. The claim has \<^verbatim>\<open>parse_duration_weeks("Less than 1 month")\<close> return 2, as the
  docstring of the function does. The single-value pattern is tried before the phrase
  and matches \<^verbatim>\<open>1 month\<close>, so the function returns 4; the phrase is reached only when
  \<^verbatim>\<open>month\<close> is not in lower case. The other two examples of the claim hold.
\<close>

theorem parse_duration_weeks_less_than_1_month:
  "parse_duration_weeks (Some ''Less than 1 month'') = Inr (Num 4) \<and>
   parse_duration_weeks (Some ''LESS THAN 1 MONTH'') = Inr (Num 2) \<and>
   parse_duration_weeks (Some ''1 to 3 months'') = Inr (Num 8) \<and>
   parse_duration_weeks (Some ''2 months'') = Inr (Num 8)"
  by code_simp

text \<open>
  Claim C4. The claim has the four parsers never raise. The class \<^verbatim>\<open>[\d,\.]+\<close> of the
  two amount patterns accepts texts that \<^verbatim>\<open>float\<close> rejects, such as an amount followed
  by the full stop of its sentence: \<open>parse_fixed_price\<close> and \<open>parse_hourly_rate\<close> then
  raise \<^verbatim>\<open>ValueError\<close>.
\<close>

theorem amount_parsers_raise:
  "parse_fixed_price (Some ''Budget: $750.00.'') = Inl ValueError \<and>
   parse_hourly_rate (Some ''Hourly: $75.00.'') = Inl ValueError \<and>
   parse_fixed_price (Some ''$1.2.3'') = Inl ValueError"
  by code_simp

subsection \<open>Search terms\<close>

lemma length_ffill_from: "length (ffill_from l xs) = length xs"
  by (induction l xs rule: ffill_from.induct) simp_all

lemma ffill_from_leading:
  "i < length xs \<Longrightarrow> \<forall>j\<le>i. xs ! j = None \<Longrightarrow> ffill_from l xs ! i = l"
proof (induction l xs arbitrary: i rule: ffill_from.induct)
  case (1 l)
  then show ?case by simp
next
  case (2 l xs)
  show ?case
  proof (cases i)
    case 0
    then show ?thesis by simp
  next
    case (Suc i')
    have "\<forall>j\<le>i'. xs ! j = None"
    proof (intro allI impI)
      fix j assume "j \<le> i'"
      then have "Suc j \<le> i" using Suc by simp
      with "2.prems"(2) have "(None # xs) ! Suc j = None" by blast
      then show "xs ! j = None" by simp
    qed
    moreover have "i' < length xs" using "2.prems"(1) Suc by simp
    ultimately have "ffill_from l xs ! i' = l" by (rule "2.IH"[rotated])
    then show ?thesis using Suc by simp
  qed
next
  case (3 l v xs)
  from "3.prems"(2) have "(Some v # xs) ! 0 = None" by blast
  then show ?case by simp
qed

lemma ffill_from_filled:
  "i < length xs \<Longrightarrow> j \<le> i \<Longrightarrow> xs ! j = Some v \<Longrightarrow>
   \<forall>k. j < k \<and> k \<le> i \<longrightarrow> xs ! k = None \<Longrightarrow> ffill_from l xs ! i = Some v"
proof (induction l xs arbitrary: i j rule: ffill_from.induct)
  case (1 l)
  then show ?case by simp
next
  case (2 l xs)
  from "2.prems"(3) obtain j' where j: "j = Suc j'" by (cases j) auto
  with "2.prems"(2) obtain i' where i: "i = Suc i'" by (cases i) auto
  have a: "i' < length xs" using "2.prems"(1) i by simp
  have b: "j' \<le> i'" using "2.prems"(2) i j by simp
  have c: "xs ! j' = Some v" using "2.prems"(3) j by simp
  have d: "\<forall>k. j' < k \<and> k \<le> i' \<longrightarrow> xs ! k = None"
  proof (intro allI impI)
    fix k assume "j' < k \<and> k \<le> i'"
    then have "j < Suc k \<and> Suc k \<le> i" using i j by simp
    with "2.prems"(4) have "(None # xs) ! Suc k = None" by blast
    then show "xs ! k = None" by simp
  qed
  from "2.IH"[OF a b c d] show ?case using i by simp
next
  case (3 l w xs)
  show ?case
  proof (cases j)
    case 0
    with "3.prems"(3) have vw: "w = v" by simp
    show ?thesis
    proof (cases i)
      case 0
      then show ?thesis using vw by simp
    next
      case (Suc i')
      have a: "i' < length xs" using "3.prems"(1) Suc by simp
      have b: "\<forall>k\<le>i'. xs ! k = None"
      proof (intro allI impI)
        fix k assume "k \<le> i'"
        then have "j < Suc k \<and> Suc k \<le> i" using Suc \<open>j = 0\<close> by simp
        with "3.prems"(4) have "(Some w # xs) ! Suc k = None" by blast
        then show "xs ! k = None" by simp
      qed
      from ffill_from_leading[OF a b] show ?thesis using Suc vw by simp
    qed
  next
    case (Suc j')
    with "3.prems"(2) obtain i' where i: "i = Suc i'" by (cases i) auto
    have a: "i' < length xs" using "3.prems"(1) i by simp
    have b: "j' \<le> i'" using "3.prems"(2) i Suc by simp
    have c: "xs ! j' = Some v" using "3.prems"(3) Suc by simp
    have d: "\<forall>k. j' < k \<and> k \<le> i' \<longrightarrow> xs ! k = None"
    proof (intro allI impI)
      fix k assume "j' < k \<and> k \<le> i'"
      then have "j < Suc k \<and> Suc k \<le> i" using i Suc by simp
      with "3.prems"(4) have "(Some w # xs) ! Suc k = None" by blast
      then show "xs ! k = None" by simp
    qed
    from "3.IH"[OF a b c d] show ?thesis using i by simp
  qed
qed

lemma length_standardize:
  "length (standardize_search_term_column col) = length col"
  by (simp add: standardize_search_term_column_def series_map_def str_lower_def ffill_def
      length_ffill_from)

lemma standardize_nth:
  "i < length col \<Longrightarrow>
   standardize_search_term_column col ! i =
     (case ffill col ! i of None \<Rightarrow> None | Some v \<Rightarrow> map_of search_term_map (lower v))"
  by (simp add: standardize_search_term_column_def series_map_def str_lower_def ffill_def
      length_ffill_from split: option.splits)

text \<open>
  Claim C6. For every column, the search-term canonicalizer keeps the length of the
  column; a cell with no value at or above it stays absent; a cell whose most recent
  value at or above it is \<open>v\<close> becomes the entry of the lookup table for \<open>v\<close> in lower
  case; and a value that is not a key of the table becomes absent.
\<close>

theorem standardize_search_term_column_spec:
  "length (standardize_search_term_column col) = length col \<and>
   (\<forall>i. i < length col \<and> (\<forall>j\<le>i. col ! j = None) \<longrightarrow>
      standardize_search_term_column col ! i = None) \<and>
   (\<forall>i j v. i < length col \<and> j \<le> i \<and> col ! j = Some v \<and>
        (\<forall>k. j < k \<and> k \<le> i \<longrightarrow> col ! k = None) \<longrightarrow>
      standardize_search_term_column col ! i = map_of search_term_map (lower v)) \<and>
   (\<forall>k. k \<notin> fst ` set search_term_map \<longrightarrow> map_of search_term_map k = None)"
proof (intro conjI allI impI)
  show "length (standardize_search_term_column col) = length col"
    by (rule length_standardize)
next
  fix i assume h: "i < length col \<and> (\<forall>j\<le>i. col ! j = None)"
  then have h1: "i < length col" and h2: "\<forall>j\<le>i. col ! j = None"
    by (rule conjunct1, rule conjunct2)
  have "ffill col ! i = None"
    unfolding ffill_def by (rule ffill_from_leading [OF h1 h2])
  then show "standardize_search_term_column col ! i = None"
    using h1 by (simp add: standardize_nth)
next
  fix i j v
  assume h: "i < length col \<and> j \<le> i \<and> col ! j = Some v \<and>
        (\<forall>k. j < k \<and> k \<le> i \<longrightarrow> col ! k = None)"
  then have h1: "i < length col" and h2: "j \<le> i" and h3: "col ! j = Some v"
    and h4: "\<forall>k. j < k \<and> k \<le> i \<longrightarrow> col ! k = None"
    by blast+
  have "ffill col ! i = Some v"
    unfolding ffill_def by (rule ffill_from_filled [OF h1 h2 h3 h4])
  then show "standardize_search_term_column col ! i = map_of search_term_map (lower v)"
    using h1 by (simp add: standardize_nth)
next
  fix k :: string assume "k \<notin> fst ` set search_term_map"
  then show "map_of search_term_map k = None"
    unfolding map_of_eq_None_iff .
qed

theorem standardize_search_term_column_spec_witness:
  "standardize_search_term_column
     [None, Some ''AI'', None, None, Some ''Data'', None, Some ''SQL'', None] ! 0 = None \<and>
   standardize_search_term_column
     [None, Some ''AI'', None, None, Some ''Data'', None, Some ''SQL'', None] ! 3 = Some ''AI'' \<and>
   standardize_search_term_column
     [None, Some ''AI'', None, None, Some ''Data'', None, Some ''SQL'', None] ! 7 = None"
proof -
  let ?col = "[None, Some ''AI'', None, None, Some ''Data'', None, Some ''SQL'', None]"
  note T = standardize_search_term_column_spec [of ?col]
  have ai: "map_of search_term_map (lower ''AI'') = Some ''AI''" by code_simp
  have sql: "lower ''SQL'' \<notin> fst ` set search_term_map" by code_simp
  have r0: "standardize_search_term_column ?col ! 0 = None"
    using T [THEN conjunct2, THEN conjunct1, rule_format, of 0] by simp
  have gap3: "\<forall>k. 1 < k \<and> k \<le> 3 \<longrightarrow> ?col ! k = None"
  proof (intro allI impI)
    fix k :: nat assume "1 < k \<and> k \<le> 3"
    then have "k = 2 \<or> k = 3" by arith
    then show "?col ! k = None" by auto
  qed
  have gap7: "\<forall>k. 6 < k \<and> k \<le> 7 \<longrightarrow> ?col ! k = None"
  proof (intro allI impI)
    fix k :: nat assume "6 < k \<and> k \<le> 7"
    then have "k = 7" by arith
    then show "?col ! k = None" by simp
  qed
  have r3: "standardize_search_term_column ?col ! 3 = Some ''AI''"
    using T [THEN conjunct2, THEN conjunct2, THEN conjunct1, rule_format, of 3 1 "''AI''"]
      gap3 ai by simp
  have "standardize_search_term_column ?col ! 7 = map_of search_term_map (lower ''SQL'')"
    using T [THEN conjunct2, THEN conjunct2, THEN conjunct1, rule_format, of 7 6 "''SQL''"]
      gap7 by simp
  moreover have "map_of search_term_map (lower ''SQL'') = None"
    using T [THEN conjunct2, THEN conjunct2, THEN conjunct2, rule_format, of "lower ''SQL''"]
      sql by simp
  ultimately have r7: "standardize_search_term_column ?col ! 7 = None" by simp
  from r0 r3 r7 show ?thesis by simp
qed

subsection \<open>The matcher\<close>

lemma first_groups_simps [simp]:
  "first_groups [] = None" "first_groups ((g, r) # ms) = Some g"
  by (simp_all add: first_groups_def)

lemma first_groups_eq_None: "first_groups ms = None \<longleftrightarrow> ms = []"
  by (cases ms) (auto simp: first_groups_def)

lemma first_groups_append:
  "first_groups (xs @ ys) = (if xs = [] then first_groups ys else first_groups xs)"
  by (cases xs) (auto simp: first_groups_def)

lemma re_match_first: "re_match r s = first_groups (matches r s Map.empty)"
  by (simp add: re_match_def first_groups_def)

lemma rests_hd: "\<exists>ys. rests c s = dropWhile c s # ys"
  by (induction s) auto

lemma butlast_rests_Nil: "takeWhile c s = [] \<Longrightarrow> butlast (rests c s) = []"
  by (cases s) (auto split: if_splits)

lemma butlast_rests_hd:
  assumes "takeWhile c s \<noteq> []"
  shows "\<exists>ys. butlast (rests c s) = dropWhile c s # ys"
proof (cases s)
  case Nil
  with assms show ?thesis by simp
next
  case (Cons x xs)
  with assms have cx: "c x" by (auto split: if_splits)
  from rests_hd obtain ys where "rests c xs = dropWhile c xs # ys" by blast
  with Cons cx show ?thesis by (simp add: butlast_append)
qed

lemma concat_rests:
  assumes "\<And>x xs. c x \<Longrightarrow> f (x # xs) = []"
  shows "concat (map f (rests c s)) = f (dropWhile c s)"
  using assms by (induction s) auto

lemma concat_butlast_rests:
  assumes "\<And>x xs. c x \<Longrightarrow> f (x # xs) = []"
  shows "concat (map f (butlast (rests c s))) =
         (if takeWhile c s = [] then [] else f (dropWhile c s))"
proof (cases s)
  case Nil
  then show ?thesis by simp
next
  case (Cons x xs)
  show ?thesis
  proof (cases "c x")
    case True
    with Cons have "butlast (rests c s) = rests c xs" by (simp add: butlast_append)
    with concat_rests [of c f xs, OF assms] Cons True show ?thesis by simp
  next
    case False
    with Cons show ?thesis by simp
  qed
qed

lemma take_takeWhile: "take (length s - length (dropWhile c s)) s = takeWhile c s"
proof -
  have "length s = length (takeWhile c s) + length (dropWhile c s)"
    by (metis length_append takeWhile_dropWhile_id)
  then have "length s - length (dropWhile c s) = length (takeWhile c s)" by simp
  then show ?thesis by (metis takeWhile_eq_take)
qed

lemma seq_star_rejects:
  assumes "\<And>x xs g'. c x \<Longrightarrow> matches b (x # xs) g' = []"
  shows "matches (Seq (Star c) b) s g = matches b (dropWhile c s) g"
proof -
  have "matches (Seq (Star c) b) s g = concat (map (\<lambda>r. matches b r g) (rests c s))"
    by (simp add: comp_def)
  also have "\<dots> = matches b (dropWhile c s) g"
    by (rule concat_rests) (rule assms)
  finally show ?thesis .
qed

lemma seq_grp_plus:
  "matches (Seq (Grp n (Plus c)) b) s g =
     concat (map (\<lambda>r. matches b r (g(n \<mapsto> take (length s - length r) s)))
                 (butlast (rests c s)))"
  by (simp add: comp_def)

lemma seq_grp_plus_rejects:
  assumes "\<And>x xs g'. c x \<Longrightarrow> matches b (x # xs) g' = []"
  shows "matches (Seq (Grp n (Plus c)) b) s g =
           (if takeWhile c s = [] then []
            else matches b (dropWhile c s) (g(n \<mapsto> takeWhile c s)))"
proof -
  let ?f = "\<lambda>r. matches b r (g(n \<mapsto> take (length s - length r) s))"
  have "\<And>x xs. c x \<Longrightarrow> ?f (x # xs) = []" by (rule assms)
  then have "concat (map ?f (butlast (rests c s))) =
      (if takeWhile c s = [] then [] else ?f (dropWhile c s))"
    by (rule concat_butlast_rests)
  then show ?thesis unfolding seq_grp_plus by (simp add: take_takeWhile)
qed

lemma seq_grp_plus_Nil:
  "takeWhile c s = [] \<Longrightarrow> matches (Seq (Grp n (Plus c)) b) s g = []"
  unfolding seq_grp_plus by (simp add: butlast_rests_Nil)

lemma seq_grp_plus_first:
  assumes t: "takeWhile c s \<noteq> []"
    and b: "matches b (dropWhile c s) (g(n \<mapsto> takeWhile c s)) \<noteq> []"
  shows "first_groups (matches (Seq (Grp n (Plus c)) b) s g) =
         first_groups (matches b (dropWhile c s) (g(n \<mapsto> takeWhile c s)))"
proof -
  from butlast_rests_hd [OF t] obtain ys where
    "butlast (rests c s) = dropWhile c s # ys" by blast
  then have "matches (Seq (Grp n (Plus c)) b) s g =
      matches b (dropWhile c s) (g(n \<mapsto> takeWhile c s)) @
      concat (map (\<lambda>r. matches b r (g(n \<mapsto> take (length s - length r) s))) ys)"
    unfolding seq_grp_plus by (simp add: take_takeWhile)
  with b show ?thesis by (simp add: first_groups_append)
qed

lemma grp_plus_first:
  "first_groups (matches (Grp n (Plus c)) s g) =
     (if takeWhile c s = [] then None else Some (g(n \<mapsto> takeWhile c s)))"
proof (cases "takeWhile c s = []")
  case True
  then show ?thesis by (simp add: butlast_rests_Nil)
next
  case False
  from butlast_rests_hd [OF False] obtain ys where
    "butlast (rests c s) = dropWhile c s # ys" by blast
  with False show ?thesis by (simp add: take_takeWhile)
qed

lemma re_search_None:
  "(\<And>u. re_match r u = None) \<Longrightarrow> re_search r s = None"
  by (induction s) simp_all

lemma re_search_suffix:
  "re_search r s = Some m \<Longrightarrow> \<exists>u. re_match r u = Some m"
  by (induction s) (auto split: option.splits)

lemma no_grp_groups:
  "no_grp r \<Longrightarrow> x \<in> set (matches r s g) \<Longrightarrow> fst x = g"
proof (induction r arbitrary: s g x)
  case (Seq a b)
  from Seq.prems(2) obtain y where
    y: "y \<in> set (matches a s g)" and x: "x \<in> set (matches b (snd y) (fst y))"
    by (auto simp: case_prod_beta)
  from Seq.prems(1) have "no_grp a" "no_grp b" by simp_all
  from Seq.IH(1) [OF this(1) y] Seq.IH(2) [OF this(2) x] show ?case by simp
qed (auto split: if_splits)

lemma seq_lit1:
  "matches (Seq (Lit [a]) b) s g =
     (case s of [] \<Rightarrow> [] | c # v \<Rightarrow> if c = a then matches b v g else [])"
  by (cases s) auto

lemma opt_first:
  "first_groups (matches (Opt r) s g) =
     (case first_groups (matches r s g) of None \<Rightarrow> Some g | Some m \<Rightarrow> Some m)"
  by (cases "matches r s g") (auto simp: first_groups_def)

lemma opt_not_Nil: "matches (Opt r) s g \<noteq> []"
  by simp

declare matches.simps [simp del]

subsection \<open>Currency amounts\<close>

lemma rate_match_no_amount:
  assumes "\<not> (\<exists>v. u = CHR ''$'' # v \<and> takeWhile is_amount_char v \<noteq> [])"
  shows "re_match rate_regex u = None"
proof (cases u)
  case Nil
  then show ?thesis by (simp add: re_match_first rate_regex_def seq_lit1)
next
  case (Cons c v)
  show ?thesis
  proof (cases "c = CHR ''$''")
    case True
    with Cons assms have "takeWhile is_amount_char v = []" by simp
    with Cons True show ?thesis
      by (simp add: re_match_first rate_regex_def seq_lit1 seq_grp_plus_Nil)
  next
    case False
    with Cons show ?thesis
      by (simp add: re_match_first rate_regex_def seq_lit1)
  qed
qed

lemma price_match_no_amount:
  assumes "\<not> (\<exists>v. u = CHR ''$'' # v \<and> takeWhile is_amount_char v \<noteq> [])"
  shows "re_match price_regex u = None"
proof (cases u)
  case Nil
  then show ?thesis by (simp add: re_match_first price_regex_def seq_lit1)
next
  case (Cons c v)
  show ?thesis
  proof (cases "c = CHR ''$''")
    case True
    with Cons assms have "takeWhile is_amount_char v = []" by simp
    with Cons True show ?thesis
      by (simp add: re_match_first price_regex_def seq_lit1 grp_plus_first)
  next
    case False
    with Cons show ?thesis
      by (simp add: re_match_first price_regex_def seq_lit1)
  qed
qed

lemma re_search_no_amount:
  assumes "\<And>u. \<not> (\<exists>v. u = CHR ''$'' # v \<and> takeWhile is_amount_char v \<noteq> []) \<Longrightarrow>
             re_match r u = None"
  shows "spec_find_amount t = None \<Longrightarrow> re_search r t = None"
proof (induction t)
  case Nil
  show ?case by (simp add: assms)
next
  case (Cons c s)
  from Cons.prems have n: "\<not> (c = CHR ''$'' \<and> takeWhile is_amount_char s \<noteq> [])"
    and s: "spec_find_amount s = None"
    by (auto split: if_splits)
  from n have "re_match r (c # s) = None" by (intro assms) simp
  with Cons.IH [OF s] show ?case by simp
qed

lemma parse_hourly_rate_no_amount:
  "spec_find_amount t = None \<Longrightarrow> parse_hourly_rate (Some t) = Inr (NaN, NaN)"
  using re_search_no_amount [of rate_regex t, OF rate_match_no_amount]
  by (simp add: parse_hourly_rate_def)

lemma parse_fixed_price_no_amount:
  "spec_find_amount d = None \<Longrightarrow> parse_fixed_price (Some d) = Inr NaN"
  using re_search_no_amount [of price_regex d, OF price_match_no_amount]
  by (simp add: parse_fixed_price_def)

subsection \<open>The hourly rate\<close>

lemma space_not_dash: "is_space x \<Longrightarrow> x \<noteq> CHR ''-''"
  by (auto simp: is_space_def code_def)

lemma space_not_dollar: "is_space x \<Longrightarrow> x \<noteq> CHR ''$''"
  by (auto simp: is_space_def code_def)

lemma second_amount_first:
  "first_groups (matches
      (Seq (Star is_space) (Seq (Lit ''-'') (Seq (Star is_space)
          (Seq (Lit ''$'') (Grp 2 (Plus is_amount_char)))))) r g) =
   (case spec_second_amount r of None \<Rightarrow> None | Some b \<Rightarrow> Some (g(2 \<mapsto> b)))"
proof -
  let ?G = "Grp 2 (Plus is_amount_char)"
  let ?D = "Seq (Lit ''$'') ?G"
  let ?Y = "Seq (Star is_space) ?D"
  let ?M = "Seq (Lit ''-'') ?Y"
  have y: "\<And>u g'. matches ?Y u g' = matches ?D (dropWhile is_space u) g'"
    by (rule seq_star_rejects) (simp add: seq_lit1 space_not_dollar)
  have x: "matches (Seq (Star is_space) ?M) r g = matches ?M (dropWhile is_space r) g"
    by (rule seq_star_rejects) (simp add: seq_lit1 space_not_dash)
  show ?thesis
  proof (cases "dropWhile is_space r")
    case Nil
    show ?thesis
      unfolding x spec_second_amount_def Nil by (simp add: seq_lit1)
  next
    case r1: (Cons c r')
    show ?thesis
    proof (cases "c = CHR ''-''")
      case False
      then show ?thesis
        unfolding x spec_second_amount_def r1 by (simp add: seq_lit1)
    next
      case True
      show ?thesis
      proof (cases "dropWhile is_space r'")
        case Nil
        from True show ?thesis
          unfolding x spec_second_amount_def r1 by (simp add: seq_lit1 y Nil)
      next
        case (Cons d r'')
        from True show ?thesis
          unfolding x spec_second_amount_def r1
          by (simp add: seq_lit1 y Cons grp_plus_first)
      qed
    qed
  qed
qed


lemma rate_match:
  "re_match rate_regex u =
     (case u of
        [] \<Rightarrow> None
      | c # v \<Rightarrow>
          if c = CHR ''$'' \<and> takeWhile is_amount_char v \<noteq> [] then
            (case spec_second_amount (dropWhile is_amount_char v) of
               None \<Rightarrow> Some [1 \<mapsto> takeWhile is_amount_char v]
             | Some b \<Rightarrow> Some [1 \<mapsto> takeWhile is_amount_char v, 2 \<mapsto> b])
          else None)"
proof (cases "\<exists>v. u = CHR ''$'' # v \<and> takeWhile is_amount_char v \<noteq> []")
  case False
  from rate_match_no_amount [OF False] False show ?thesis
    by (auto split: list.splits)
next
  case True
  then obtain v where u: "u = CHR ''$'' # v" and t: "takeWhile is_amount_char v \<noteq> []"
    by blast
  let ?X = "Seq (Star is_space) (Seq (Lit ''-'') (Seq (Star is_space)
          (Seq (Lit ''$'') (Grp 2 (Plus is_amount_char)))))"
  let ?g = "[1 \<mapsto> takeWhile is_amount_char v]"
  have "re_match rate_regex u =
      first_groups (matches (Seq (Grp 1 (Plus is_amount_char)) (Opt ?X)) v Map.empty)"
    unfolding re_match_first rate_regex_def seq_lit1 u by simp
  also have "\<dots> = first_groups (matches (Opt ?X) (dropWhile is_amount_char v) ?g)"
    by (rule seq_grp_plus_first [OF t opt_not_Nil])
  also have "\<dots> = (case spec_second_amount (dropWhile is_amount_char v) of
               None \<Rightarrow> Some ?g | Some b \<Rightarrow> Some (?g(2 \<mapsto> b)))"
    unfolding opt_first second_amount_first by (simp split: option.splits)
  finally show ?thesis using u t by simp
qed

lemma rate_search:
  "re_search rate_regex t =
     (case spec_find_amount t of
        None \<Rightarrow> None
      | Some (a, rest) \<Rightarrow>
          (case spec_second_amount rest of
             None \<Rightarrow> Some [1 \<mapsto> a]
           | Some b \<Rightarrow> Some [1 \<mapsto> a, 2 \<mapsto> b]))"
proof (induction t)
  case Nil
  show ?case by (simp add: rate_match)
next
  case (Cons c s)
  show ?case
  proof (cases "c = CHR ''$'' \<and> takeWhile is_amount_char s \<noteq> []")
    case True
    then show ?thesis by (simp add: rate_match split: option.splits)
  next
    case False
    then have "re_match rate_regex (c # s) = None" by (auto simp: rate_match)
    moreover from False have "spec_find_amount (c # s) = spec_find_amount s" by auto
    ultimately show ?thesis using Cons by (simp del: spec_find_amount.simps)
  qed
qed




subsection \<open>The retained records\<close>

lemma fmul_not_nan: "\<not> isnan (fmul a b) \<Longrightarrow> \<not> isnan a \<and> \<not> isnan b"
  by (cases a; cases b) auto

lemma nanmean_pair_not_nan: "\<not> isnan (nanmean [a, b]) \<Longrightarrow> \<not> isnan a \<or> \<not> isnan b"
  by (cases a; cases b) (auto simp: nanmean_def)

lemma estimate_hourly_rates:
  assumes t: "hourly_or_fixed r = Some t" and h: "str_in ''hourly'' (lower t)"
    and e: "estimate_total_pay r = Inr e" and n: "\<not> isnan e"
    and p: "parse_hourly_rate (Some t) = Inr (mn, mx)"
  shows "\<not> isnan mn \<and> \<not> isnan mx"
proof -
  from t h e p have "\<exists>hh ww. e = fmul (fmul (nanmean [mn, mx]) hh) ww"
    by (auto simp: estimate_total_pay_def Let_def split: sum.splits)
  then obtain hh ww where "e = fmul (fmul (nanmean [mn, mx]) hh) ww" by blast
  with n have "\<not> isnan (nanmean [mn, mx])" using fmul_not_nan by blast
  then have "\<not> isnan mn \<or> \<not> isnan mx" by (rule nanmean_pair_not_nan)
  moreover from parse_hourly_rate_cases [of "Some t"] p
  have "(mn = NaN \<and> mx = NaN) \<or> (\<exists>a b. mn = Num a \<and> mx = Num b)" by auto
  ultimately show ?thesis by auto
qed

lemma estimate_pay_type:
  assumes e: "estimate_total_pay r = Inr e" and n: "\<not> isnan e"
  shows "\<exists>t. hourly_or_fixed r = Some t \<and>
           (str_in ''hourly'' (lower t) \<or>
            (\<not> str_in ''hourly'' (lower t) \<and> str_in ''fixed'' (lower t) \<and>
             parse_fixed_price (duration_or_budget r) = Inr e))"
proof (cases "hourly_or_fixed r")
  case None
  with e n show ?thesis by (simp add: estimate_total_pay_def)
next
  case (Some t)
  with e n show ?thesis
    by (cases "str_in ''hourly'' (lower t)"; cases "str_in ''fixed'' (lower t)")
      (auto simp: estimate_total_pay_def)
qed

lemma add_columns_fields:
  assumes a: "add_columns r = Inr p" and n: "\<not> isnan (estimated_total_pay p)"
  shows "(pay_type p = Some ''Hourly'' \<or> pay_type p = Some ''Fixed'') \<and>
         (pay_type p = Some ''Hourly'' \<longrightarrow>
            \<not> isnan (hourly_rate_min p) \<and> \<not> isnan (hourly_rate_max p)) \<and>
         (pay_type p = Some ''Fixed'' \<longrightarrow> \<not> isnan (fixed_price p))"
proof -
  from a obtain mn mx price e where
    rate: "parse_hourly_rate (hourly_or_fixed r) = Inr (mn, mx)" and
    price: "parse_fixed_price (duration_or_budget r) = Inr price" and
    est: "estimate_total_pay r = Inr e" and
    pt: "pay_type p = get_pay_type (hourly_or_fixed r)" and
    fmin: "hourly_rate_min p = mn" and fmax: "hourly_rate_max p = mx" and
    fprice: "fixed_price p = price" and fest: "estimated_total_pay p = e"
    by (auto simp: add_columns_def split: sum.splits prod.splits)
  from n fest have ne: "\<not> isnan e" by simp
  from estimate_pay_type [OF est ne] obtain t where
    t: "hourly_or_fixed r = Some t" and
    c: "str_in ''hourly'' (lower t) \<or>
        (\<not> str_in ''hourly'' (lower t) \<and> str_in ''fixed'' (lower t) \<and>
         parse_fixed_price (duration_or_budget r) = Inr e)"
    by blast
  from c show ?thesis
  proof
    assume h: "str_in ''hourly'' (lower t)"
    from rate t have "parse_hourly_rate (Some t) = Inr (mn, mx)" by simp
    from estimate_hourly_rates [OF t h est ne this]
    have "\<not> isnan mn \<and> \<not> isnan mx" .
    moreover from pt t h have "pay_type p = Some ''Hourly''"
      by (simp add: get_pay_type_def)
    ultimately show ?thesis using fmin fmax by simp
  next
    assume f: "\<not> str_in ''hourly'' (lower t) \<and> str_in ''fixed'' (lower t) \<and>
         parse_fixed_price (duration_or_budget r) = Inr e"
    with price have "price = e" by simp
    moreover from pt t f have "pay_type p = Some ''Fixed''"
      by (simp add: get_pay_type_def)
    ultimately show ?thesis using fprice ne by simp
  qed
qed

lemma apply_rows_mem:
  "apply_rows f xs = Inr ys \<Longrightarrow> y \<in> set ys \<Longrightarrow> \<exists>x\<in>set xs. f x = Inr y"
proof (induction xs arbitrary: ys)
  case Nil
  then show ?case by simp
next
  case (Cons x xs)
  from Cons.prems(1) obtain z zs where
    z: "f x = Inr z" and zs: "apply_rows f xs = Inr zs" and ys: "ys = z # zs"
    by (auto split: sum.splits)
  from Cons.prems(2) ys have "y = z \<or> y \<in> set zs" by simp
  then show ?case
  proof
    assume "y = z"
    with z show ?thesis by simp
  next
    assume "y \<in> set zs"
    from Cons.IH [OF zs this] show ?thesis by auto
  qed
qed

text \<open>
  Claim C7, as stated: in a retained record the hourly rates are present only if the pay
  type is Hourly, and the fixed price only if it is Fixed. The script parses the rate
  from the pay-type text and the price from the duration text of every row, whatever
  its pay type, so both fail: below, a Fixed record keeps hourly rates and an Hourly
  record keeps a fixed price.
\<close>

theorem prepare_fields_counterexample:
  "prepare
     [\<lparr>hourly_or_fixed = Some ''Fixed-price: $500'', duration_or_budget = Some ''$750.00''\<rparr>,
      \<lparr>hourly_or_fixed = Some ''Hourly: $20.00 - $40.00'',
       duration_or_budget = Some ''30+ hrs/week, bonus $100''\<rparr>]
   = Inr
     [\<lparr>pay_type = Some ''Fixed'', hourly_rate_min = Num 500, hourly_rate_max = Num 500,
       est_hours_per_week = NaN, est_duration_weeks = NaN, fixed_price = Num 750,
       estimated_total_pay = Num 750\<rparr>,
      \<lparr>pay_type = Some ''Hourly'', hourly_rate_min = Num 20, hourly_rate_max = Num 40,
       est_hours_per_week = Num 30, est_duration_weeks = NaN, fixed_price = Num 100,
       estimated_total_pay = Num 7200\<rparr>]"
  by code_simp

lemma price_match:
  "re_match price_regex u =
     (case u of
        [] \<Rightarrow> None
      | c # v \<Rightarrow>
          if c = CHR ''$'' \<and> takeWhile is_amount_char v \<noteq> []
          then Some [1 \<mapsto> takeWhile is_amount_char v] else None)"
  by (cases u) (simp_all add: re_match_first price_regex_def seq_lit1 grp_plus_first)

lemma price_search:
  "re_search price_regex t =
     (case spec_find_amount t of None \<Rightarrow> None | Some (a, rest) \<Rightarrow> Some [1 \<mapsto> a])"
proof (induction t)
  case Nil
  show ?case by (simp add: price_match)
next
  case (Cons c s)
  show ?case
  proof (cases "c = CHR ''$'' \<and> takeWhile is_amount_char s \<noteq> []")
    case True
    then show ?thesis by (simp add: price_match)
  next
    case False
    then have "re_match price_regex (c # s) = None" by (auto simp: price_match)
    moreover from False have "spec_find_amount (c # s) = spec_find_amount s" by auto
    ultimately show ?thesis using Cons by (simp del: spec_find_amount.simps)
  qed
qed

lemma parse_fixed_price_amount:
  assumes "spec_find_amount d = Some ar" and "parse_fixed_price (Some d) = Inr x"
  shows "\<not> isnan x"
proof -
  obtain a rest where "ar = (a, rest)" by (cases ar)
  with assms have "py_float (remove_commas a) = Inr x"
    by (simp add: parse_fixed_price_def price_search)
  from py_float_Num [OF this] show ?thesis by auto
qed

lemma parse_hourly_rate_amount:
  assumes "spec_find_amount t = Some ar" and "parse_hourly_rate (Some t) = Inr (mn, mx)"
  shows "\<not> isnan mn"
proof -
  obtain a rest where "ar = (a, rest)" by (cases ar)
  with assms have "\<exists>m. re_search rate_regex t = Some m \<and> m 1 = Some a"
    by (simp add: rate_search split: option.splits)
  with assms(2) have "py_float (remove_commas a) = Inr mn"
    by (auto simp: parse_hourly_rate_def split: sum.splits option.splits if_splits)
  from py_float_Num [OF this] show ?thesis by auto
qed

lemma add_columns_only_if:
  assumes a: "add_columns r = Inr p" and n: "\<not> isnan (estimated_total_pay p)"
    and u: "spec_unmixed r"
  shows "(\<not> isnan (hourly_rate_min p) \<or> \<not> isnan (hourly_rate_max p) \<longrightarrow>
            pay_type p = Some ''Hourly'') \<and>
         (\<not> isnan (fixed_price p) \<longrightarrow> pay_type p = Some ''Fixed'')"
proof -
  from a obtain mn mx price e where
    rate: "parse_hourly_rate (hourly_or_fixed r) = Inr (mn, mx)" and
    price: "parse_fixed_price (duration_or_budget r) = Inr price" and
    est: "estimate_total_pay r = Inr e" and
    pt: "pay_type p = get_pay_type (hourly_or_fixed r)" and
    fmin: "hourly_rate_min p = mn" and fmax: "hourly_rate_max p = mx" and
    fprice: "fixed_price p = price" and fest: "estimated_total_pay p = e"
    by (auto simp: add_columns_def split: sum.splits prod.splits)
  from n fest have ne: "\<not> isnan e" by simp
  from estimate_pay_type [OF est ne] obtain t where
    t: "hourly_or_fixed r = Some t" and
    c: "str_in ''hourly'' (lower t) \<or>
        (\<not> str_in ''hourly'' (lower t) \<and> str_in ''fixed'' (lower t) \<and>
         parse_fixed_price (duration_or_budget r) = Inr e)"
    by blast
  show ?thesis
  proof (cases "str_in ''hourly'' (lower t)")
    case True
    with pt t have h: "pay_type p = Some ''Hourly''"
      by (simp add: get_pay_type_def)
    from True have "spec_contains_ci ''hourly'' t" by (simp add: hourly_in_iff)
    with u t have "parse_fixed_price (duration_or_budget r) = Inr NaN"
      by (cases "duration_or_budget r")
        (simp_all add: spec_unmixed_def parse_fixed_price_no_amount,
         simp add: parse_fixed_price_def)
    with price fprice have "isnan (fixed_price p)" by simp
    with h show ?thesis by simp
  next
    case False
    with c pt t have f: "pay_type p = Some ''Fixed''"
      by (simp add: get_pay_type_def)
    from False have "\<not> spec_contains_ci ''hourly'' t" by (simp add: hourly_in_iff)
    moreover from False c have "spec_contains_ci ''fixed'' t" by (simp add: fixed_in_iff)
    ultimately have "spec_find_amount t = None" using u t by (simp add: spec_unmixed_def)
    then have "parse_hourly_rate (Some t) = Inr (NaN, NaN)"
      by (rule parse_hourly_rate_no_amount)
    with rate t fmin fmax have "isnan (hourly_rate_min p) \<and> isnan (hourly_rate_max p)"
      by simp
    with f show ?thesis by simp
  qed
qed

text \<open>
  Claim C7, amended. Take a dataset in which every row keeps its two kinds of pay apart
  (\<open>spec_unmixed\<close>: no currency amount in the duration text of a row whose pay-type text
  contains \<^verbatim>\<open>hourly\<close>, nor in the pay-type text of a row whose pay-type text contains
  \<^verbatim>\<open>fixed\<close> and not \<^verbatim>\<open>hourly\<close>). Then in every retained record the hourly rates are present
  only if the pay type is Hourly, and the fixed price is present only if the pay type is
  Fixed.
\<close>

theorem prepare_retained_fields:
  assumes "prepare df = Inr rows" and "\<forall>r\<in>set df. spec_unmixed r" and "p \<in> set rows"
  shows "(\<not> isnan (hourly_rate_min p) \<or> \<not> isnan (hourly_rate_max p) \<longrightarrow>
            pay_type p = Some ''Hourly'') \<and>
         (\<not> isnan (fixed_price p) \<longrightarrow> pay_type p = Some ''Fixed'')"
proof -
  from assms(1) obtain all_rows where
    ar: "apply_rows add_columns df = Inr all_rows" and
    rows: "rows = filter (\<lambda>p. \<not> isnan (estimated_total_pay p)) all_rows"
    by (auto simp: prepare_def split: sum.splits)
  from assms(3) rows have mem: "p \<in> set all_rows" and n: "\<not> isnan (estimated_total_pay p)"
    by simp_all
  from apply_rows_mem [OF ar mem] obtain r where
    r: "r \<in> set df" and a: "add_columns r = Inr p" by blast
  from assms(2) r have "spec_unmixed r" by blast
  from add_columns_only_if [OF a n this] show ?thesis .
qed

theorem prepare_retained_fields_witness:
  "prepare
     [\<lparr>hourly_or_fixed = Some ''Fixed-price'', duration_or_budget = Some ''$750.00''\<rparr>,
      \<lparr>hourly_or_fixed = Some ''Hourly: $20.00 - $40.00'',
       duration_or_budget = Some ''30+ hrs/week''\<rparr>,
      \<lparr>hourly_or_fixed = None, duration_or_budget = Some ''$5''\<rparr>]
   = Inr
     [\<lparr>pay_type = Some ''Fixed'', hourly_rate_min = NaN, hourly_rate_max = NaN,
       est_hours_per_week = NaN, est_duration_weeks = NaN, fixed_price = Num 750,
       estimated_total_pay = Num 750\<rparr>,
      \<lparr>pay_type = Some ''Hourly'', hourly_rate_min = Num 20, hourly_rate_max = Num 40,
       est_hours_per_week = Num 30, est_duration_weeks = NaN, fixed_price = NaN,
       estimated_total_pay = Num 7200\<rparr>] \<and>
   spec_unmixed
     \<lparr>hourly_or_fixed = Some ''Fixed-price'', duration_or_budget = Some ''$750.00''\<rparr> \<and>
   spec_unmixed
     \<lparr>hourly_or_fixed = Some ''Hourly: $20.00 - $40.00'',
       duration_or_budget = Some ''30+ hrs/week''\<rparr> \<and>
   spec_unmixed \<lparr>hourly_or_fixed = None, duration_or_budget = Some ''$5''\<rparr> \<and>
   \<not> isnan (fixed_price
     \<lparr>pay_type = Some ''Fixed'', hourly_rate_min = NaN, hourly_rate_max = NaN,
       est_hours_per_week = NaN, est_duration_weeks = NaN, fixed_price = Num 750,
       estimated_total_pay = Num 750\<rparr>) \<and>
   pay_type
     \<lparr>pay_type = Some ''Fixed'', hourly_rate_min = NaN, hourly_rate_max = NaN,
       est_hours_per_week = NaN, est_duration_weeks = NaN, fixed_price = Num 750,
       estimated_total_pay = Num 750\<rparr> = Some ''Fixed'' \<and>
   \<not> isnan (hourly_rate_min
     \<lparr>pay_type = Some ''Hourly'', hourly_rate_min = Num 20, hourly_rate_max = Num 40,
       est_hours_per_week = Num 30, est_duration_weeks = NaN, fixed_price = NaN,
       estimated_total_pay = Num 7200\<rparr>) \<and>
   pay_type
     \<lparr>pay_type = Some ''Hourly'', hourly_rate_min = Num 20, hourly_rate_max = Num 40,
       est_hours_per_week = Num 30, est_duration_weeks = NaN, fixed_price = NaN,
       estimated_total_pay = Num 7200\<rparr> = Some ''Hourly''"
proof -
  let ?r1 = "\<lparr>hourly_or_fixed = Some ''Fixed-price'', duration_or_budget = Some ''$750.00''\<rparr>"
  let ?r2 = "\<lparr>hourly_or_fixed = Some ''Hourly: $20.00 - $40.00'',
       duration_or_budget = Some ''30+ hrs/week''\<rparr>"
  let ?r3 = "\<lparr>hourly_or_fixed = None, duration_or_budget = Some ''$5''\<rparr>"
  let ?p1 = "\<lparr>pay_type = Some ''Fixed'', hourly_rate_min = NaN, hourly_rate_max = NaN,
       est_hours_per_week = NaN, est_duration_weeks = NaN, fixed_price = Num 750,
       estimated_total_pay = Num 750\<rparr>"
  let ?p2 = "\<lparr>pay_type = Some ''Hourly'', hourly_rate_min = Num 20, hourly_rate_max = Num 40,
       est_hours_per_week = Num 30, est_duration_weeks = NaN, fixed_price = NaN,
       estimated_total_pay = Num 7200\<rparr>"
  have a: "prepare [?r1, ?r2, ?r3] = Inr [?p1, ?p2]" by code_simp
  have u1: "spec_unmixed ?r1" by code_simp
  have u2: "spec_unmixed ?r2" by code_simp
  have u3: "spec_unmixed ?r3" by code_simp
  from u1 u2 u3 have u: "\<forall>r\<in>set [?r1, ?r2, ?r3]. spec_unmixed r" by simp
  have m1: "?p1 \<in> set [?p1, ?p2]" by simp
  have m2: "?p2 \<in> set [?p1, ?p2]" by simp
  from prepare_retained_fields [OF a u m1] prepare_retained_fields [OF a u m2] a u1 u2 u3
  show ?thesis by simp
qed

text \<open>
  The restriction cannot be weakened: a retained record of a row that does not keep its
  two kinds of pay apart has an hourly rate and the pay type Fixed, or a fixed price and
  the pay type Hourly.
\<close>

lemma add_columns_mixed:
  assumes a: "add_columns r = Inr p" and n: "\<not> isnan (estimated_total_pay p)"
    and u: "\<not> spec_unmixed r"
  shows "(\<not> isnan (hourly_rate_min p) \<and> pay_type p = Some ''Fixed'') \<or>
         (\<not> isnan (fixed_price p) \<and> pay_type p = Some ''Hourly'')"
proof -
  from a obtain mn mx price e where
    rate: "parse_hourly_rate (hourly_or_fixed r) = Inr (mn, mx)" and
    price: "parse_fixed_price (duration_or_budget r) = Inr price" and
    est: "estimate_total_pay r = Inr e" and
    pt: "pay_type p = get_pay_type (hourly_or_fixed r)" and
    fmin: "hourly_rate_min p = mn" and fmax: "hourly_rate_max p = mx" and
    fprice: "fixed_price p = price" and fest: "estimated_total_pay p = e"
    by (auto simp: add_columns_def split: sum.splits prod.splits)
  from n fest have ne: "\<not> isnan e" by simp
  from estimate_pay_type [OF est ne] obtain t where
    t: "hourly_or_fixed r = Some t" and
    c: "str_in ''hourly'' (lower t) \<or>
        (\<not> str_in ''hourly'' (lower t) \<and> str_in ''fixed'' (lower t) \<and>
         parse_fixed_price (duration_or_budget r) = Inr e)"
    by blast
  show ?thesis
  proof (cases "str_in ''hourly'' (lower t)")
    case True
    with pt t have h: "pay_type p = Some ''Hourly''"
      by (simp add: get_pay_type_def)
    from True have "spec_contains_ci ''hourly'' t" by (simp add: hourly_in_iff)
    with u t obtain d ar where d: "duration_or_budget r = Some d"
      and ar: "spec_find_amount d = Some ar"
      by (auto simp: spec_unmixed_def split: option.splits)
    from price d have "parse_fixed_price (Some d) = Inr price" by simp
    from parse_fixed_price_amount [OF ar this] fprice h show ?thesis by simp
  next
    case False
    with c pt t have f: "pay_type p = Some ''Fixed''"
      by (simp add: get_pay_type_def)
    from False have "\<not> spec_contains_ci ''hourly'' t" by (simp add: hourly_in_iff)
    with u t obtain ar where ar: "spec_find_amount t = Some ar"
      by (auto simp: spec_unmixed_def split: if_splits)
    from rate t have "parse_hourly_rate (Some t) = Inr (mn, mx)" by simp
    from parse_hourly_rate_amount [OF ar this] fmin f show ?thesis by simp
  qed
qed

subsection \<open>The hours and the weeks\<close>

lemma rests_mem: "r \<in> set (rests c s) \<Longrightarrow> \<exists>p. s = p @ r \<and> list_all c p"
proof (induction s arbitrary: r)
  case Nil
  then show ?case by simp
next
  case (Cons x xs)
  show ?case
  proof (cases "r = x # xs")
    case True
    then have "x # xs = [] @ r \<and> list_all c []" by simp
    then show ?thesis by blast
  next
    case False
    with Cons.prems have cx: "c x" and r: "r \<in> set (rests c xs)"
      by (auto split: if_splits)
    from Cons.IH [OF r] obtain p where "xs = p @ r" "list_all c p" by blast
    with cx have "x # xs = (x # p) @ r \<and> list_all c (x # p)" by simp
    then show ?thesis by blast
  qed
qed

lemma butlast_rests_mem:
  assumes "r \<in> set (butlast (rests c s))"
  shows "\<exists>p. p \<noteq> [] \<and> s = p @ r \<and> list_all c p"
proof (cases s)
  case Nil
  with assms show ?thesis by simp
next
  case (Cons x xs)
  with assms have cx: "c x" by (auto split: if_splits)
  with Cons assms have "r \<in> set (rests c xs)" by (simp add: butlast_append)
  from rests_mem [OF this] obtain p where "xs = p @ r" "list_all c p" by blast
  with cx Cons have "x # p \<noteq> [] \<and> s = (x # p) @ r \<and> list_all c (x # p)" by simp
  then show ?thesis by blast
qed

lemma grp_plus_mem:
  assumes "y \<in> set (matches (Grp n (Plus c)) s g)"
  shows "\<exists>p. p \<noteq> [] \<and> list_all c p \<and> fst y = g(n \<mapsto> p)"
proof -
  from assms obtain r where r: "r \<in> set (butlast (rests c s))"
    and y: "y = (g(n \<mapsto> take (length s - length r) s), r)"
    by (auto simp: matches.simps)
  from butlast_rests_mem [OF r] obtain p where
    p: "p \<noteq> []" "s = p @ r" "list_all c p" by blast
  then have "take (length s - length r) s = p" by simp
  with y p show ?thesis by auto
qed

lemma seq_mem:
  "x \<in> set (matches (Seq a b) s g) \<Longrightarrow>
   \<exists>y\<in>set (matches a s g). x \<in> set (matches b (snd y) (fst y))"
  by (simp add: matches.simps case_prod_beta)

lemma seq_no_grp_left:
  assumes "no_grp a" and "x \<in> set (matches (Seq a b) s g)"
  shows "\<exists>s'. x \<in> set (matches b s' g)"
proof -
  from seq_mem [OF assms(2)] obtain y where
    y: "y \<in> set (matches a s g)" and x: "x \<in> set (matches b (snd y) (fst y))" by blast
  from no_grp_groups [OF assms(1) y] x show ?thesis by auto
qed

lemma seq_grp_plus_mem:
  assumes "x \<in> set (matches (Seq (Grp n (Plus c)) b) s g)"
  shows "\<exists>p s'. p \<noteq> [] \<and> list_all c p \<and> x \<in> set (matches b s' (g(n \<mapsto> p)))"
proof -
  from seq_mem [OF assms] obtain y where
    y: "y \<in> set (matches (Grp n (Plus c)) s g)" and
    x: "x \<in> set (matches b (snd y) (fst y))" by blast
  from grp_plus_mem [OF y] obtain p where "p \<noteq> []" "list_all c p" "fst y = g(n \<mapsto> p)"
    by blast
  with x show ?thesis by auto
qed

lemma re_match_mem:
  "re_match r s = Some m \<Longrightarrow> \<exists>rest. (m, rest) \<in> set (matches r s Map.empty)"
  by (auto simp: re_match_def split: list.splits)

lemma re_search_mem:
  assumes "re_search r t = Some m"
  shows "\<exists>u rest. (m, rest) \<in> set (matches r u Map.empty)"
proof -
  from re_search_suffix [OF assms] obtain u where "re_match r u = Some m" by blast
  from re_match_mem [OF this] show ?thesis by blast
qed

lemma hours_groups:
  assumes "re_search hours_regex t = Some m"
  shows "\<exists>p. p \<noteq> [] \<and> list_all is_digit p \<and> m 1 = Some p"
proof -
  let ?B = "Seq (Opt (Lit ''+'')) (Seq (Star is_space)
       (Seq (Lit ''hr'') (Seq (Opt (Lit ''s'')) (Lit ''/week''))))"
  from re_search_mem [OF assms] obtain u rest where
    "(m, rest) \<in> set (matches (Seq (Grp 1 (Plus is_digit)) ?B) u Map.empty)"
    unfolding hours_regex_def by blast
  from seq_grp_plus_mem [OF this] obtain p s' where
    p: "p \<noteq> []" "list_all is_digit p" and
    x: "(m, rest) \<in> set (matches ?B s' [1 \<mapsto> p])" by blast
  have "no_grp ?B" by simp
  from no_grp_groups [OF this x] have "m = [1 \<mapsto> p]" by simp
  with p show ?thesis by simp
qed

lemma months_groups:
  assumes "re_search months_regex t = Some m"
  shows "\<exists>p. p \<noteq> [] \<and> list_all is_digit p \<and> m 1 = Some p"
proof -
  let ?B = "Seq (Star is_space) (Seq (Lit ''month'') (Opt (Lit ''s'')))"
  from re_search_mem [OF assms] obtain u rest where
    "(m, rest) \<in> set (matches (Seq (Grp 1 (Plus is_digit)) ?B) u Map.empty)"
    unfolding months_regex_def by blast
  from seq_grp_plus_mem [OF this] obtain p s' where
    p: "p \<noteq> []" "list_all is_digit p" and
    x: "(m, rest) \<in> set (matches ?B s' [1 \<mapsto> p])" by blast
  have "no_grp ?B" by simp
  from no_grp_groups [OF this x] have "m = [1 \<mapsto> p]" by simp
  with p show ?thesis by simp
qed

lemma range_groups:
  assumes "re_search range_regex t = Some m"
  shows "\<exists>p q. p \<noteq> [] \<and> list_all is_digit p \<and> m 1 = Some p \<and>
               q \<noteq> [] \<and> list_all is_digit q \<and> m 2 = Some q"
proof -
  let ?B = "Seq (Star is_space) (Seq (Lit ''month'') (Opt (Lit ''s'')))"
  let ?G = "Seq (Grp 2 (Plus is_digit)) ?B"
  let ?S2 = "Seq (Star is_space) ?G"
  let ?T = "Seq (Lit ''to'') ?S2"
  let ?S1 = "Seq (Star is_space) ?T"
  from re_search_mem [OF assms] obtain u rest where
    "(m, rest) \<in> set (matches (Seq (Grp 1 (Plus is_digit)) ?S1) u Map.empty)"
    unfolding range_regex_def by blast
  from seq_grp_plus_mem [OF this] obtain p s1 where
    p: "p \<noteq> []" "list_all is_digit p" and
    x1: "(m, rest) \<in> set (matches ?S1 s1 [1 \<mapsto> p])" by blast
  have "no_grp (Star is_space)" by simp
  from seq_no_grp_left [OF this x1] obtain s2 where
    x2: "(m, rest) \<in> set (matches ?T s2 [1 \<mapsto> p])" by blast
  have "no_grp (Lit ''to'')" by simp
  from seq_no_grp_left [OF this x2] obtain s3 where
    x3: "(m, rest) \<in> set (matches ?S2 s3 [1 \<mapsto> p])" by blast
  from seq_no_grp_left [OF \<open>no_grp (Star is_space)\<close> x3] obtain s4 where
    x4: "(m, rest) \<in> set (matches ?G s4 [1 \<mapsto> p])" by blast
  from seq_grp_plus_mem [OF x4] obtain q s5 where
    q: "q \<noteq> []" "list_all is_digit q" and
    x5: "(m, rest) \<in> set (matches ?B s5 [1 \<mapsto> p, 2 \<mapsto> q])" by blast
  have "no_grp ?B" by simp
  from no_grp_groups [OF this x5] have "m = [1 \<mapsto> p, 2 \<mapsto> q]" by simp
  with p q show ?thesis by simp
qed

lemma py_float_digits:
  assumes "p \<noteq> []" and "list_all is_digit p"
  shows "py_float p = Inr (Num (of_nat (nat_of_digits p)))"
proof -
  from assms(2) have t: "takeWhile is_digit p = p" and d: "dropWhile is_digit p = []"
    by (simp_all add: list_all_iff)
  show ?thesis unfolding py_float_def Let_def t d using assms(1) by simp
qed

lemma parse_hours_per_week_returns: "\<exists>h. parse_hours_per_week d = Inr h"
proof (cases d)
  case None
  then show ?thesis by (simp add: parse_hours_per_week_def)
next
  case (Some t)
  show ?thesis
  proof (cases "re_search hours_regex t")
    case None
    with Some show ?thesis by (simp add: parse_hours_per_week_def)
  next
    case m: (Some m)
    from hours_groups [OF m] obtain p where "p \<noteq> []" "list_all is_digit p" "m 1 = Some p"
      by blast
    with Some m show ?thesis
      by (simp add: parse_hours_per_week_def float_group_def py_float_digits)
  qed
qed

lemma parse_duration_weeks_returns: "\<exists>w. parse_duration_weeks d = Inr w"
proof (cases d)
  case None
  then show ?thesis by (simp add: parse_duration_weeks_def)
next
  case (Some t)
  show ?thesis
  proof (cases "re_search range_regex t")
    case m: (Some m)
    from range_groups [OF m] obtain p q where
      "p \<noteq> []" "list_all is_digit p" "m 1 = Some p"
      "q \<noteq> []" "list_all is_digit q" "m 2 = Some q" by blast
    with Some m show ?thesis
      by (simp add: parse_duration_weeks_def float_group_def py_float_digits)
  next
    case None
    show ?thesis
    proof (cases "re_search months_regex t")
      case n: None
      with Some None show ?thesis by (simp add: parse_duration_weeks_def)
    next
      case m: (Some m)
      from months_groups [OF m] obtain p where
        "p \<noteq> []" "list_all is_digit p" "m 1 = Some p" by blast
      with Some None m show ?thesis
        by (simp add: parse_duration_weeks_def float_group_def py_float_digits)
    qed
  qed
qed

subsection \<open>The estimate\<close>

lemma nanmean_pair: "nanmean [a, b] = spec_avg_rate a b"
  by (cases a; cases b) (simp_all add: nanmean_def)

lemma hourly_estimate_eq:
  "fmul (fmul (spec_avg_rate a b) (if isnan h then Num 30 else h))
        (if isnan w then Num 8 else w) = spec_hourly_estimate a b h w"
  by (cases "spec_avg_rate a b"; cases h; cases w) (simp_all add: spec_hourly_estimate_def)

lemma estimate_total_pay_eq:
  assumes h: "parse_hours_per_week (duration_or_budget r) = Inr hours"
    and w: "parse_duration_weeks (duration_or_budget r) = Inr weeks"
  shows "estimate_total_pay r = spec_estimate_total_pay r hours weeks"
proof (cases "hourly_or_fixed r")
  case None
  then show ?thesis by (simp add: estimate_total_pay_def spec_estimate_total_pay_def)
next
  case (Some t)
  show ?thesis
  proof (cases "parse_hourly_rate (Some t)")
    case (Inl e)
    with Some show ?thesis
      by (simp add: estimate_total_pay_def spec_estimate_total_pay_def
          hourly_in_iff fixed_in_iff)
  next
    case (Inr mm)
    obtain mn mx where mm: "mm = (mn, mx)" by (cases mm)
    with Some Inr h w show ?thesis
      by (simp add: estimate_total_pay_def spec_estimate_total_pay_def
          hourly_in_iff fixed_in_iff nanmean_pair hourly_estimate_eq Let_def)
  qed
qed

text \<open>
  Claim C1. For every row, the two readings of the duration text return (hours per week
  and weeks, present or absent), and \<open>estimate_total_pay\<close> is the estimate of the
  specification at these readings: for a pay-type text that contains \<^verbatim>\<open>hourly\<close> in any
  case of its letters, the mean of the parsed rates that are present, times the hours
  per week (30 when absent), times the weeks (8 when absent), and absent when no rate is
  present. (When the rate text is no number, the \<^verbatim>\<open>ValueError\<close> of \<open>parse_hourly_rate\<close>
  is passed on.) In particular the rates \<^verbatim>\<open>$20.00 - $40.00\<close> with a duration text that
  gives neither hours nor weeks, or with none, give 7200.
\<close>

theorem estimate_total_pay_spec:
  "(\<exists>hours weeks.
      parse_hours_per_week (duration_or_budget r) = Inr hours \<and>
      parse_duration_weeks (duration_or_budget r) = Inr weeks \<and>
      estimate_total_pay r = spec_estimate_total_pay r hours weeks) \<and>
   estimate_total_pay
     \<lparr>hourly_or_fixed = Some ''Hourly: $20.00 - $40.00'',
      duration_or_budget = Some ''Duration not set''\<rparr> = Inr (Num 7200) \<and>
   estimate_total_pay
     \<lparr>hourly_or_fixed = Some ''Hourly: $20.00 - $40.00'',
      duration_or_budget = None\<rparr> = Inr (Num 7200)"
proof -
  from parse_hours_per_week_returns obtain hours where
    h: "parse_hours_per_week (duration_or_budget r) = Inr hours" by blast
  from parse_duration_weeks_returns obtain weeks where
    w: "parse_duration_weeks (duration_or_budget r) = Inr weeks" by blast
  from h w estimate_total_pay_eq [OF h w] have
    "\<exists>hours weeks.
      parse_hours_per_week (duration_or_budget r) = Inr hours \<and>
      parse_duration_weeks (duration_or_budget r) = Inr weeks \<and>
      estimate_total_pay r = spec_estimate_total_pay r hours weeks" by blast
  moreover have "estimate_total_pay
     \<lparr>hourly_or_fixed = Some ''Hourly: $20.00 - $40.00'',
      duration_or_budget = Some ''Duration not set''\<rparr> = Inr (Num 7200)"
    by code_simp
  moreover have "estimate_total_pay
     \<lparr>hourly_or_fixed = Some ''Hourly: $20.00 - $40.00'',
      duration_or_budget = None\<rparr> = Inr (Num 7200)"
    by code_simp
  ultimately show ?thesis by simp
qed

theorem estimate_total_pay_spec_witness:
  "estimate_total_pay
     \<lparr>hourly_or_fixed = Some ''HOURLY: $15'',
      duration_or_budget = Some ''30+ hrs/week, 1 to 3 months''\<rparr> = Inr (Num 3600) \<and>
   estimate_total_pay
     \<lparr>hourly_or_fixed = Some ''Fixed-price'',
      duration_or_budget = Some ''Budget: $750.00''\<rparr> = Inr (Num 750)"
proof -
  let ?r = "\<lparr>hourly_or_fixed = Some ''HOURLY: $15'',
      duration_or_budget = Some ''30+ hrs/week, 1 to 3 months''\<rparr>"
  let ?f = "\<lparr>hourly_or_fixed = Some ''Fixed-price'',
      duration_or_budget = Some ''Budget: $750.00''\<rparr>"
  have h: "parse_hours_per_week (duration_or_budget ?r) = Inr (Num 30)" by code_simp
  have w: "parse_duration_weeks (duration_or_budget ?r) = Inr (Num 8)" by code_simp
  have s: "spec_estimate_total_pay ?r (Num 30) (Num 8) = Inr (Num 3600)" by code_simp
  have f: "\<And>hours weeks. spec_estimate_total_pay ?f hours weeks = Inr (Num 750)"
    unfolding spec_estimate_total_pay_def by code_simp
  from estimate_total_pay_spec [of ?r, THEN conjunct1] h w s
  have "estimate_total_pay ?r = Inr (Num 3600)" by auto
  moreover from estimate_total_pay_spec [of ?f, THEN conjunct1] f
  have "estimate_total_pay ?f = Inr (Num 750)" by auto
  ultimately show ?thesis by simp
qed

end
